theory Spec2Isabelle
  imports Complex_Main
begin

section \<open>Pipeline Pilot: the plan-generation route and the form's validation step\<close>

text \<open>
  The development follows \<^verbatim>\<open>app/api/plan/route.ts\<close> (the functions
  \<^verbatim>\<open>buildFallbackPlan\<close> and \<^verbatim>\<open>POST\<close>) and the validation step of
  \<^verbatim>\<open>handleSubmit\<close> in the page component. JavaScript strings are modelled as
  \<^typ>\<open>string\<close>, arrays as lists, \<^verbatim>\<open>null\<close>/\<^verbatim>\<open>undefined\<close> as \<^term>\<open>None\<close>.
\<close>

subsection \<open>The validated request (\<^verbatim>\<open>LeadRequest\<close>)\<close>

text \<open>
  \<^verbatim>\<open>LeadRequest\<close> is the type inferred from \<^verbatim>\<open>leadRequestSchema\<close>. The enumerated
  fields are string literals at run time and are compared and interpolated as strings by
  the route, so they are strings here; which strings the schema admits is the schema's
  business (the validator is a parameter of the handler below).
\<close>

record LeadRequest =
  businessName :: string
  industry :: string
  productDescription :: string
  targetCustomer :: string
  uniqueValue :: string
  goals :: "string list"
  channels :: "string list"
  tone :: string
  offer :: string
  "notes" :: "string option"
  budgetLevel :: string
  timeframe :: string

subsection \<open>The plan (\<^verbatim>\<open>LeadPlan\<close>), as the object literal of \<^verbatim>\<open>buildFallbackPlan\<close> shapes it\<close>

record CampaignSummary =
  northStar :: string
  successMetrics :: "string list"
  positioningTheme :: string

record IdealCustomerProfile =
  companyTraits :: "string list"
  buyerPersona :: "string list"
  painPoints :: "string list"

record MessagingPillar =
  title :: string
  angle :: string
  proofPoints :: "string list"

record ChannelPlay =
  channel :: string
  objective :: string
  play :: string
  cadence :: string
  sampleCopy :: string

record AutomationFlow =
  name :: string
  trigger :: string
  steps :: "string list"

record Experiment =
  hypothesis :: string
  "experiment" :: string
  metric :: string

record LeadPlan =
  campaignSummary :: CampaignSummary
  idealCustomerProfile :: IdealCustomerProfile
  messagingPillars :: "MessagingPillar list"
  channelStrategy :: "ChannelPlay list"
  automationWorkflow :: "AutomationFlow list"
  experiments :: "Experiment list"
  nextSteps :: "string list"

subsection \<open>\<^verbatim>\<open>String.prototype.toLowerCase\<close>\<close>

text \<open>
  The letters \<^verbatim>\<open>A\<close> to \<^verbatim>\<open>Z\<close> are mapped to \<^verbatim>\<open>a\<close> to \<^verbatim>\<open>z\<close> and every other
  character is kept. JavaScript also lowers the cased letters outside ASCII, which this
  definition leaves as they are: it agrees with the source on ASCII text only. No
  statement below depends on which characters are changed, and no proof unfolds this
  definition.
\<close>

definition lowerChar :: "char \<Rightarrow> char" where
  "lowerChar c =
     (let n = (of_char c :: nat) in if 65 \<le> n \<and> n \<le> 90 then char_of (n + 32) else c)"

definition toLowerCase :: "string \<Rightarrow> string" where
  "toLowerCase s = map lowerChar s"

subsection \<open>\<^verbatim>\<open>buildFallbackPlan\<close>\<close>

definition buildFallbackPlan :: "LeadRequest \<Rightarrow> LeadPlan" where
  "buildFallbackPlan payload =
     \<lparr> campaignSummary =
         \<lparr> northStar =
             ''Generate qualified pipeline for '' @ businessName payload @ '' within ''
               @ timeframe payload @ ''.'',
           successMetrics =
             [''Meetings booked per week'',
              ''Reply rate %'',
              ''Pipeline value influenced''],
           positioningTheme = ''Position as the '' @ toLowerCase (uniqueValue payload) \<rparr>,
       idealCustomerProfile =
         \<lparr> companyTraits =
             [''Operates in '' @ industry payload,
              ''Mid-market to enterprise accounts'',
              ''Teams with urgent need for modernization''],
           buyerPersona =
             [''Economic buyer: VP / Director level stakeholder'',
              ''Technical champion: hands-on practitioner'',
              ''Influencer: adjacent department peer''],
           painPoints =
             [''Manual workflows causing wasted spend'',
              ''Pressure to show ROI quickly'',
              ''Need to differentiate in competitive market''] \<rparr>,
       messagingPillars =
         [\<lparr> title = ''Value driver'',
            angle = ''Highlight how '' @ toLowerCase (productDescription payload)
                      @ '' unlocks measurable ROI.'',
            proofPoints =
              [''Quantify time or cost savings'',
               ''Reference a key customer win'',
               ''Mention implementation support''] \<rparr>,
          \<lparr> title = ''Risk reducer'',
            angle = ''Show how the offer reduces risk compared to current status quo.'',
            proofPoints =
              [''Share guarantee or SLA'',
               ''Provide social proof snippet'',
               ''Emphasize ease-of-adoption''] \<rparr>],
       channelStrategy =
         map (\<lambda>channel.
                \<lparr> channel = channel,
                  objective = ''Drive '' @ toLowerCase (offer payload) @ '' conversions.'',
                  play = ''Run a '' @ budgetLevel payload
                           @ '' budget program combining intent data and manual research.'',
                  cadence = (if timeframe payload = ''2 weeks'' then ''3x weekly'' else ''Weekly''),
                  sampleCopy = ''Hi {{first_name}}, '' @ offer payload \<rparr>)
             (channels payload),
       automationWorkflow =
         [\<lparr> name = ''Prompt follow-up sequence'',
            trigger = ''Form submission or positive reply'',
            steps =
              [''Send tailored follow-up within 4 hours'',
               ''Share relevant asset on day 3'',
               ''Escalate to call invite on day 5 if no response''] \<rparr>],
       experiments =
         [\<lparr> hypothesis = ''Referencing a mutual connection increases cold outreach replies.'',
            experiment = ''Test LinkedIn InMail templates with social proof block.'',
            metric = ''Positive reply rate'' \<rparr>,
          \<lparr> hypothesis = ''Offering a quick teardown boosts meeting bookings.'',
            experiment = ''Cold email variant offering 15-min audit.'',
            metric = ''Meetings booked'' \<rparr>],
       nextSteps =
         [''Finalize lead list with top 200 accounts'',
          ''Draft channel-specific outreach scripts'',
          ''Enable experiment tracking dashboard'',
          ''Launch in waves and optimize weekly''] \<rparr>"

subsection \<open>Validation errors (zod) and their flattening\<close>

text \<open>
  A \<^verbatim>\<open>ZodError\<close> carries a list of issues, each with a path and a message.
  \<^verbatim>\<open>flatten()\<close> only uses the first path element as a property key; a numeric array
  index is a property key like any other, so path elements are strings here.
\<close>

record ZodIssue =
  path :: "string list"
  message :: string

record FlattenedError =
  formErrors :: "string list"
  fieldErrors :: "(string \<times> string list) list"

text \<open>
  \<^verbatim>\<open>fieldErrors[k] = fieldErrors[k] || []; fieldErrors[k].push(m)\<close> on an object whose
  keys are kept in insertion order (field names are never integer-like).
\<close>

fun pushMessage :: "string \<Rightarrow> string \<Rightarrow> (string \<times> string list) list \<Rightarrow> (string \<times> string list) list" where
  "pushMessage k m [] = [(k, [m])]"
| "pushMessage k m ((k', ms) # rest) =
     (if k' = k then (k', ms @ [m]) # rest else (k', ms) # pushMessage k m rest)"

text \<open>The loop \<^verbatim>\<open>for (const sub of this.issues)\<close> of \<^verbatim>\<open>flatten\<close>.\<close>

fun flattenInto :: "ZodIssue list \<Rightarrow> FlattenedError \<Rightarrow> FlattenedError" where
  "flattenInto [] acc = acc"
| "flattenInto (sub # subs) acc =
     flattenInto subs
       (case path sub of
          [] \<Rightarrow> acc\<lparr>formErrors := formErrors acc @ [message sub]\<rparr>
        | k # _ \<Rightarrow> acc\<lparr>fieldErrors := pushMessage k (message sub) (fieldErrors acc)\<rparr>)"

definition flatten :: "ZodIssue list \<Rightarrow> FlattenedError" where
  "flatten issues = flattenInto issues \<lparr>formErrors = [], fieldErrors = []\<rparr>"

subsection \<open>Exceptions\<close>

datatype js_error = SyntaxError string | ZodError "ZodIssue list" | Error string

datatype 'a outcome = Returns 'a | Throws js_error

subsection \<open>The validation step of \<^verbatim>\<open>handleSubmit\<close>\<close>

record PageState =
  form :: LeadRequest
  errors :: "string \<rightharpoonup> string"
  loading :: bool
  plan :: "LeadPlan option"
  rawPlan :: "string option"
  statusMessage :: "string option"

text \<open>
  The loop over \<^verbatim>\<open>Object.entries(error.flatten().fieldErrors)\<close>:
  \<^verbatim>\<open>if (messages && messages.length) fieldErrors[field] = messages[0]\<close>.
\<close>

fun firstMessages :: "(string \<times> string list) list \<Rightarrow> (string \<rightharpoonup> string) \<Rightarrow> (string \<rightharpoonup> string)" where
  "firstMessages [] errs = errs"
| "firstMessages ((field, messages) # entries) errs =
     firstMessages entries
       (case messages of [] \<Rightarrow> errs | m # _ \<Rightarrow> errs(field \<mapsto> m))"

text \<open>
  \<^verbatim>\<open>handleSubmit\<close> up to the network round trip. \<^verbatim>\<open>parse\<close> is
  \<^verbatim>\<open>leadRequestSchema.parse\<close>, which throws where \<^verbatim>\<open>safeParse\<close> reports failure;
  \<^verbatim>\<open>submitPlan\<close> stands for the rest of the function (the \<^verbatim>\<open>fetch\<close> of
  \<^verbatim>\<open>/api/plan\<close> and the state updates after it), reached only with a validated payload.
\<close>

definition handleSubmit ::
  "(LeadRequest \<Rightarrow> LeadRequest outcome) \<Rightarrow> (LeadRequest \<Rightarrow> PageState \<Rightarrow> PageState)
     \<Rightarrow> PageState \<Rightarrow> PageState" where
  "handleSubmit parse submitPlan st =
     (let st1 = st\<lparr>statusMessage := None, errors := Map.empty\<rparr> in
      case parse (form st1) of
        Returns payload \<Rightarrow> submitPlan payload st1
      | Throws error \<Rightarrow>
          (case error of
             ZodError issues \<Rightarrow>
               st1\<lparr>errors := firstMessages (fieldErrors (flatten issues)) Map.empty\<rparr>
           | _ \<Rightarrow> st1\<lparr>statusMessage := Some ''Something went wrong validating your inputs.''\<rparr>))"

subsection \<open>The collaborators of the route\<close>

datatype SafeParseReturn = SafeParseSuccess LeadRequest | SafeParseError "ZodIssue list"

record ChatMessage =
  role :: string
  content :: string

record ChatRequest =
  model :: string
  temperature :: rat
  messages :: "ChatMessage list"

text \<open>A completion, as far as \<^verbatim>\<open>completion.choices?.[0]?.message?.content\<close> reads it.\<close>

datatype CompletionMessage = CompletionMessage "string option"

datatype Choice = Choice "CompletionMessage option"

datatype ChatCompletion = ChatCompletion "Choice list option"

text \<open>\<^verbatim>\<open>completion.choices?.[0]?.message?.content ?? ""\<close>\<close>

fun responseTextOf :: "ChatCompletion \<Rightarrow> string" where
  "responseTextOf (ChatCompletion (Some (Choice (Some (CompletionMessage (Some text))) # _))) = text"
| "responseTextOf _ = []"

text \<open>The client is its \<^verbatim>\<open>chat.completions.create\<close> method.\<close>

type_synonym OpenAIClient = "ChatRequest \<Rightarrow> ChatCompletion outcome"

text \<open>The result of \<^verbatim>\<open>tryParsePlan\<close>, as \<^verbatim>\<open>POST\<close> destructures it.\<close>

record ParseResult =
  plan :: "LeadPlan option"
  raw :: "string option"
  message :: "string option"

text \<open>
  What the handler reads from outside itself: the environment variable, and the four
  imports of the route whose sources are \<^verbatim>\<open>lib/schemas\<close>, \<^verbatim>\<open>lib/openai\<close>,
  \<^verbatim>\<open>lib/prompt\<close> and \<^verbatim>\<open>lib/types\<close>. \<^verbatim>\<open>safeParse\<close> reports failure in its
  result; the other three are called inside the \<^verbatim>\<open>try\<close> block, where anything they
  throw is caught.
\<close>

record 'j Env =
  OPENAI_API_KEY :: "string option"
  safeParse :: "'j \<Rightarrow> SafeParseReturn"
  getOpenAIClient :: "OpenAIClient outcome"
  buildLeadPlanPrompt :: "LeadRequest \<Rightarrow> string outcome"
  tryParsePlan :: "string \<Rightarrow> ParseResult outcome"

text \<open>
  A request is what \<^verbatim>\<open>await request.json()\<close> makes of it: the parsed body, or the
  rejection with a \<^verbatim>\<open>SyntaxError\<close> when the body is not JSON.
\<close>

record 'j Request =
  json :: "'j outcome"

subsection \<open>Responses and effects\<close>

text \<open>The three object literals passed to \<^verbatim>\<open>NextResponse.json\<close>.\<close>

datatype ResponseBody =
    InvalidInputBody string FlattenedError
  | WarningBody "LeadPlan option" "string option" string
  | NoticeBody "LeadPlan option" "string option" "string option"

record Response =
  body :: ResponseBody
  status :: nat

datatype Effect = CompletionsCreate ChatRequest | ConsoleError js_error

text \<open>JavaScript truthiness of a value of type \<^verbatim>\<open>string | undefined\<close>.\<close>

definition truthy :: "string option \<Rightarrow> bool" where
  "truthy v = (case v of None \<Rightarrow> False | Some s \<Rightarrow> s \<noteq> [])"

definition chatRequest :: "string \<Rightarrow> ChatRequest" where
  "chatRequest prompt =
     \<lparr> model = ''gpt-4o-mini'',
       temperature = 4 / 10,
       messages =
         [\<lparr> role = ''system'',
            content = ''You are Pipeline Pilot, a senior demand generation strategist. Always respond with strictly valid JSON.'' \<rparr>,
          \<lparr> role = ''user'', content = prompt \<rparr>] \<rparr>"

text \<open>
  The \<^verbatim>\<open>catch\<close> block: the error is written by \<^verbatim>\<open>console.error\<close>, after the
  effects that preceded it, and the response carries the fallback plan.
\<close>

definition catchBlock :: "LeadRequest \<Rightarrow> Effect list \<Rightarrow> js_error \<Rightarrow> Response outcome \<times> Effect list" where
  "catchBlock payload effects error =
     (Returns \<lparr> body = WarningBody (Some (buildFallbackPlan payload)) None
                         ''Failed to generate plan with OpenAI. Provided a fallback strategy instead.'',
                status = 200 \<rparr>,
      effects @ [ConsoleError error])"

subsection \<open>\<^verbatim>\<open>POST\<close>\<close>

text \<open>
  The handler returns its outcome (a response, or the exception it lets through) and the
  effects it had, in order: calls of the model and lines written by \<^verbatim>\<open>console.error\<close>.
\<close>

definition POST :: "'j Env \<Rightarrow> 'j Request \<Rightarrow> Response outcome \<times> Effect list" where
  "POST env request =
     (case json request of
        Throws error \<Rightarrow> (Throws error, [])
      | Returns raw_body \<Rightarrow>
          (case safeParse env raw_body of
             SafeParseError issues \<Rightarrow>
               (Returns \<lparr> body = InvalidInputBody ''Invalid input'' (flatten issues),
                          status = 400 \<rparr>, [])
           | SafeParseSuccess payload \<Rightarrow>
               if \<not> truthy (OPENAI_API_KEY env) then
                 (Returns \<lparr> body = WarningBody (Some (buildFallbackPlan payload)) None
                                     ''OPENAI_API_KEY is not configured. Responding with a heuristic fallback plan.'',
                            status = 200 \<rparr>, [])
               else
                 (case getOpenAIClient env of
                    Throws error \<Rightarrow> catchBlock payload [] error
                  | Returns client \<Rightarrow>
                      (case buildLeadPlanPrompt env payload of
                         Throws error \<Rightarrow> catchBlock payload [] error
                       | Returns prompt \<Rightarrow>
                           (case client (chatRequest prompt) of
                              Throws error \<Rightarrow>
                                catchBlock payload [CompletionsCreate (chatRequest prompt)] error
                            | Returns completion \<Rightarrow>
                                (let responseText = responseTextOf completion in
                                 case tryParsePlan env responseText of
                                   Throws error \<Rightarrow>
                                     catchBlock payload [CompletionsCreate (chatRequest prompt)] error
                                 | Returns r \<Rightarrow>
                                     (Returns \<lparr> body = NoticeBody (plan r)
                                                         (if plan r \<noteq> None then None else raw r)
                                                         (message r),
                                                status = 200 \<rparr>,
                                      [CompletionsCreate (chatRequest prompt)])))))))"

subsection \<open>The plan parser\<close>

text \<open>
  Modelled from the spec: \<^verbatim>\<open>tryParsePlan\<close> of \<^verbatim>\<open>lib/types\<close> is not among the
  sources. The span from the first opening brace to the last closing brace of the text
  (step 2 of the parser); there is none when no closing brace follows the first opening
  brace.
\<close>

definition outerBraceSpan :: "string \<Rightarrow> string option" where
  "outerBraceSpan text =
     (let fromFirst = dropWhile (\<lambda>c. c \<noteq> CHR ''{'') text;
          candidate = rev (dropWhile (\<lambda>c. c \<noteq> CHR ''}'') (rev fromFirst))
      in if candidate = [] then None else Some candidate)"

text \<open>
  Modelled from the spec: \<^verbatim>\<open>tryParsePlan\<close> of \<^verbatim>\<open>lib/types\<close> is not among the
  sources. \<^verbatim>\<open>decode\<close> is the structured decode of a text against the plan shape
  (JSON parsing followed by schema validation), \<^verbatim>\<open>recoveryNote\<close> the message that
  notes a recovery, whose wording the specification leaves open.
\<close>

definition parsePlan :: "(string \<Rightarrow> LeadPlan option) \<Rightarrow> string \<Rightarrow> string \<Rightarrow> ParseResult" where
  "parsePlan decode recoveryNote modelText =
     (let failure = \<lparr> plan = None, raw = Some modelText,
                       message = Some ''model output could not be parsed as a structured plan'' \<rparr>
      in case decode modelText of
           Some p \<Rightarrow> \<lparr> plan = Some p, raw = None, message = None \<rparr>
         | None \<Rightarrow>
             (case outerBraceSpan modelText of
                None \<Rightarrow> failure
              | Some candidate \<Rightarrow>
                  (case decode candidate of
                     Some p \<Rightarrow> \<lparr> plan = Some p, raw = None, message = Some recoveryNote \<rparr>
                   | None \<Rightarrow> failure)))"

subsection \<open>JSON values, \<^verbatim>\<open>JSON.stringify\<close> and \<^verbatim>\<open>JSON.parse\<close>\<close>

text \<open>
  Modelled from the spec: the structured decode of the parser (\<^verbatim>\<open>lib/types\<close>, not
  among the sources) reads JSON, and the serialisation of a plan writes it; both are
  the platform's \<^verbatim>\<open>JSON.parse\<close> and \<^verbatim>\<open>JSON.stringify\<close>, modelled here on values
  without floating point: a number is kept as the text of its token, since no field of
  a plan is a number. The members of an object are kept in the order of the text.
\<close>

datatype JSONValue =
    JNull
  | JBool bool
  | JNumber string
  | JString string
  | JArray "JSONValue list"
  | JObject "(string \<times> JSONValue) list"

text \<open>
  \<^verbatim>\<open>JSON.stringify\<close> without indentation. In a string the quotation mark, the
  backslash and the control characters are escaped, the latter with their short forms
  where JSON has one and as \<^verbatim>\<open>\u00XX\<close> with lower-case digits otherwise.
\<close>

definition hexDigit :: "nat \<Rightarrow> char" where
  "hexDigit d = (if d < 10 then char_of (48 + d) else char_of (87 + d))"

definition escapeChar :: "char \<Rightarrow> string" where
  "escapeChar c =
     (let n = (of_char c :: nat) in
      if n = 0x22 then [CHR 0x5C, CHR 0x22]
      else if n = 0x5C then [CHR 0x5C, CHR 0x5C]
      else if n = 8 then [CHR 0x5C, CHR ''b'']
      else if n = 9 then [CHR 0x5C, CHR ''t'']
      else if n = 10 then [CHR 0x5C, CHR ''n'']
      else if n = 12 then [CHR 0x5C, CHR ''f'']
      else if n = 13 then [CHR 0x5C, CHR ''r'']
      else if n < 0x20 then [CHR 0x5C, CHR ''u'', CHR ''0'', CHR ''0'', hexDigit (n div 16), hexDigit (n mod 16)]
      else [c])"

definition quoteString :: "string \<Rightarrow> string" where
  "quoteString s = CHR 0x22 # concat (map escapeChar s) @ [CHR 0x22]"

fun commaJoin :: "string list \<Rightarrow> string" where
  "commaJoin [] = []"
| "commaJoin [x] = x"
| "commaJoin (x # y # rest) = x @ CHR '','' # commaJoin (y # rest)"

fun stringify :: "JSONValue \<Rightarrow> string" where
  "stringify JNull = ''null''"
| "stringify (JBool b) = (if b then ''true'' else ''false'')"
| "stringify (JNumber token) = token"
| "stringify (JString s) = quoteString s"
| "stringify (JArray vs) = CHR ''['' # commaJoin (map stringify vs) @ [CHR '']'']"
| "stringify (JObject ms) =
     CHR ''{'' # commaJoin (map (\<lambda>(k, v). quoteString k @ CHR '':'' # stringify v) ms) @ [CHR ''}'']"

text \<open>
  \<^verbatim>\<open>JSON.parse\<close>. White space is the space, the tab, the line feed and the carriage
  return.
\<close>

definition isWs :: "char \<Rightarrow> bool" where
  "isWs c = (c = CHR 0x20 \<or> c = CHR 0x09 \<or> c = CHR 0x0A \<or> c = CHR 0x0D)"

definition skipWs :: "string \<Rightarrow> string" where
  "skipWs text = dropWhile isWs text"

definition isDigit :: "char \<Rightarrow> bool" where
  "isDigit c = (let n = (of_char c :: nat) in 48 \<le> n \<and> n \<le> 57)"

definition hexValue :: "char \<Rightarrow> nat option" where
  "hexValue c =
     (let n = (of_char c :: nat) in
      if 48 \<le> n \<and> n \<le> 57 then Some (n - 48)
      else if 97 \<le> n \<and> n \<le> 102 then Some (n - 87)
      else if 65 \<le> n \<and> n \<le> 70 then Some (n - 55)
      else None)"

definition hexCode :: "char \<Rightarrow> char \<Rightarrow> char \<Rightarrow> char \<Rightarrow> nat option" where
  "hexCode a b c d =
     (case (hexValue a, hexValue b, hexValue c, hexValue d) of
        (Some x, Some y, Some z, Some w) \<Rightarrow> Some (((x * 16 + y) * 16 + z) * 16 + w)
      | _ \<Rightarrow> None)"

text \<open>
  Strings are byte sequences here, so an escaped code point is stored in its UTF-8
  form; a pair of surrogate escapes is one code point, and an unpaired surrogate is
  kept in its three-byte form.
\<close>

definition utf8 :: "nat \<Rightarrow> string" where
  "utf8 n =
     (if n < 0x80 then [char_of n]
      else if n < 0x800 then [char_of (0xC0 + n div 0x40), char_of (0x80 + n mod 0x40)]
      else if n < 0x10000 then
        [char_of (0xE0 + n div 0x1000), char_of (0x80 + n div 0x40 mod 0x40),
         char_of (0x80 + n mod 0x40)]
      else
        [char_of (0xF0 + n div 0x40000), char_of (0x80 + n div 0x1000 mod 0x40),
         char_of (0x80 + n div 0x40 mod 0x40), char_of (0x80 + n mod 0x40)])"

text \<open>The low surrogate that an escape at the head of the text denotes, if any.\<close>

definition lowSurrogateAt :: "string \<Rightarrow> nat option" where
  "lowSurrogateAt text =
     (case text of
        bs # u # a # b # c # d # _ \<Rightarrow>
          if bs = CHR 0x5C \<and> u = CHR ''u'' then
            (case hexCode a b c d of
               Some m \<Rightarrow> if 0xDC00 \<le> m \<and> m < 0xE000 then Some m else None
             | None \<Rightarrow> None)
          else None
      | _ \<Rightarrow> None)"

definition unescape :: "char \<Rightarrow> char option" where
  "unescape e =
     (if e = CHR 0x22 then Some (CHR 0x22)
      else if e = CHR 0x5C then Some (CHR 0x5C)
      else if e = CHR ''/'' then Some (CHR ''/'')
      else if e = CHR ''b'' then Some (CHR 0x08)
      else if e = CHR ''f'' then Some (CHR 0x0C)
      else if e = CHR ''n'' then Some (CHR 0x0A)
      else if e = CHR ''r'' then Some (CHR 0x0D)
      else if e = CHR ''t'' then Some (CHR 0x09)
      else None)"

definition consChars :: "string \<Rightarrow> (string \<times> string) option \<Rightarrow> (string \<times> string) option" where
  "consChars cs result = map_option (\<lambda>(s, rest). (cs @ s, rest)) result"

text \<open>
  The characters of a string after its opening quotation mark, up to the closing one:
  the string read, and the text that follows.
\<close>

fun parseChars :: "string \<Rightarrow> (string \<times> string) option" where
  "parseChars [] = None"
| "parseChars (c # cs) =
     (if c = CHR 0x22 then Some ([], cs)
      else if c = CHR 0x5C then
        (case cs of
           [] \<Rightarrow> None
         | e # cs1 \<Rightarrow>
             if e = CHR ''u'' then
               (case cs1 of
                  h1 # h2 # h3 # h4 # cs2 \<Rightarrow>
                    (case hexCode h1 h2 h3 h4 of
                       None \<Rightarrow> None
                     | Some n \<Rightarrow>
                         if 0xD800 \<le> n \<and> n < 0xDC00 then
                           (case lowSurrogateAt cs2 of
                              Some m \<Rightarrow>
                                consChars (utf8 (0x10000 + (n - 0xD800) * 0x400 + (m - 0xDC00)))
                                  (parseChars (drop 6 cs2))
                            | None \<Rightarrow> consChars (utf8 n) (parseChars cs2))
                         else consChars (utf8 n) (parseChars cs2))
                | _ \<Rightarrow> None)
             else
               (case unescape e of
                  None \<Rightarrow> None
                | Some ch \<Rightarrow> consChars [ch] (parseChars cs1)))
      else if (of_char c :: nat) < 0x20 then None
      else consChars [c] (parseChars cs))"

text \<open>
  A number token: an optional minus sign, an integer part without a leading zero, an
  optional fraction and an optional exponent.
\<close>

definition digitsThen :: "string \<Rightarrow> (string \<times> string) option" where
  "digitsThen text =
     (let ds = takeWhile isDigit text in if ds = [] then None else Some (ds, dropWhile isDigit text))"

definition signPart :: "string \<Rightarrow> string \<times> string" where
  "signPart text =
     (case text of
        c # cs \<Rightarrow> if c = CHR ''-'' then ([c], cs) else ([], text)
      | [] \<Rightarrow> ([], text))"

definition fractionPart :: "string \<Rightarrow> (string \<times> string) option" where
  "fractionPart text =
     (case text of
        c # cs \<Rightarrow>
          if c = CHR ''.'' then map_option (\<lambda>(ds, rest). (c # ds, rest)) (digitsThen cs)
          else Some ([], text)
      | [] \<Rightarrow> Some ([], text))"

definition exponentPart :: "string \<Rightarrow> (string \<times> string) option" where
  "exponentPart text =
     (case text of
        e # cs \<Rightarrow>
          if e = CHR ''e'' \<or> e = CHR ''E'' then
            (case cs of
               s # cs' \<Rightarrow>
                 if s = CHR ''+'' \<or> s = CHR ''-'' then
                   map_option (\<lambda>(ds, rest). (e # s # ds, rest)) (digitsThen cs')
                 else map_option (\<lambda>(ds, rest). (e # ds, rest)) (digitsThen cs)
             | [] \<Rightarrow> None)
          else Some ([], text)
      | [] \<Rightarrow> Some ([], text))"

definition parseNumber :: "string \<Rightarrow> (string \<times> string) option" where
  "parseNumber text =
     (case signPart text of
        (sign, t0) \<Rightarrow>
          (case digitsThen t0 of
             None \<Rightarrow> None
           | Some (ip, t1) \<Rightarrow>
               if hd ip = CHR ''0'' \<and> tl ip \<noteq> [] then None
               else
                 (case fractionPart t1 of
                    None \<Rightarrow> None
                  | Some (fp, t2) \<Rightarrow>
                      (case exponentPart t2 of
                         None \<Rightarrow> None
                       | Some (ep, t3) \<Rightarrow> Some (sign @ ip @ fp @ ep, t3)))))"

text \<open>The literals and the numbers: the values that are neither strings nor containers.\<close>

definition parseAtom :: "string \<Rightarrow> (JSONValue \<times> string) option" where
  "parseAtom text =
     (if take 4 text = ''null'' then Some (JNull, drop 4 text)
      else if take 4 text = ''true'' then Some (JBool True, drop 4 text)
      else if take 5 text = ''false'' then Some (JBool False, drop 5 text)
      else map_option (\<lambda>(token, rest). (JNumber token, rest)) (parseNumber text))"

text \<open>
  A value, the elements of an array after its opening bracket, and the members of an
  object after its opening brace. Each recursive call is on a shorter text; the tests
  on the length of what is left say so where the text comes back from a call.
\<close>

function parseValue :: "string \<Rightarrow> (JSONValue \<times> string) option"
  and parseElements :: "string \<Rightarrow> (JSONValue list \<times> string) option"
  and parseMembers :: "string \<Rightarrow> ((string \<times> JSONValue) list \<times> string) option"
where
  "parseValue text =
     (case skipWs text of
        [] \<Rightarrow> None
      | c # cs \<Rightarrow>
          if c = CHR ''{'' then
            (case skipWs cs of
               [] \<Rightarrow> None
             | d # ds \<Rightarrow>
                 if d = CHR ''}'' then Some (JObject [], ds)
                 else map_option (\<lambda>(ms, rest). (JObject ms, rest)) (parseMembers cs))
          else if c = CHR ''['' then
            (case skipWs cs of
               [] \<Rightarrow> None
             | d # ds \<Rightarrow>
                 if d = CHR '']'' then Some (JArray [], ds)
                 else map_option (\<lambda>(vs, rest). (JArray vs, rest)) (parseElements cs))
          else if c = CHR 0x22 then
            map_option (\<lambda>(s, rest). (JString s, rest)) (parseChars cs)
          else parseAtom (c # cs))"
| "parseElements text =
     (case parseValue text of
        None \<Rightarrow> None
      | Some (v, rest) \<Rightarrow>
          if length rest < length text then
            (case skipWs rest of
               [] \<Rightarrow> None
             | c # cs \<Rightarrow>
                 if c = CHR '','' then
                   map_option (\<lambda>(vs, rest'). (v # vs, rest')) (parseElements cs)
                 else if c = CHR '']'' then Some ([v], cs)
                 else None)
          else None)"
| "parseMembers text =
     (case skipWs text of
        [] \<Rightarrow> None
      | q # cs \<Rightarrow>
          if q = CHR 0x22 then
            (case parseChars cs of
               None \<Rightarrow> None
             | Some (k, rest) \<Rightarrow>
                 if length rest < length cs then
                   (case skipWs rest of
                      [] \<Rightarrow> None
                    | colon # cs1 \<Rightarrow>
                        if colon = CHR '':'' then
                          (case parseValue cs1 of
                             None \<Rightarrow> None
                           | Some (v, rest1) \<Rightarrow>
                               if length rest1 < length cs1 then
                                 (case skipWs rest1 of
                                    [] \<Rightarrow> None
                                  | c # cs2 \<Rightarrow>
                                      if c = CHR '','' then
                                        map_option (\<lambda>(ms, rest'). ((k, v) # ms, rest')) (parseMembers cs2)
                                      else if c = CHR ''}'' then Some ([(k, v)], cs2)
                                      else None)
                               else None)
                        else None)
                 else None)
          else None)"
  by pat_completeness auto
termination
proof -
  have shorter: "length cs < length t" if "skipWs t = c # cs" for t c cs
  proof -
    have "length (skipWs t) \<le> length t"
      by (simp add: skipWs_def length_dropWhile_le)
    with that show ?thesis by simp
  qed
  show ?thesis
    by (relation "measure (\<lambda>x. case x of
                             Inl t \<Rightarrow> 2 * length t
                           | Inr (Inl t) \<Rightarrow> 2 * length t + 1
                           | Inr (Inr t) \<Rightarrow> 2 * length t + 1)")
       (auto dest!: shorter)
qed

text \<open>The whole text is one value, with white space around it at most.\<close>

definition JSON_parse :: "string \<Rightarrow> JSONValue option" where
  "JSON_parse text =
     (case parseValue text of
        None \<Rightarrow> None
      | Some (v, rest) \<Rightarrow> if skipWs rest = [] then Some v else None)"

declare parseValue.simps [simp del] parseElements.simps [simp del] parseMembers.simps [simp del]

text \<open>The values without a number: the ones that the serialisation of a plan is made of.\<close>

fun numberFree :: "JSONValue \<Rightarrow> bool" where
  "numberFree (JNumber token) = False"
| "numberFree (JArray vs) = list_all numberFree vs"
| "numberFree (JObject ms) = list_all (\<lambda>(k, v). numberFree v) ms"
| "numberFree j = True"

text \<open>The text of one member of an object, as \<^const>\<open>stringify\<close> writes it.\<close>

definition memberText :: "string \<times> JSONValue \<Rightarrow> string" where
  "memberText m = (case m of (k, v) \<Rightarrow> quoteString k @ CHR '':'' # stringify v)"

subsection \<open>The structured decode of a plan\<close>

text \<open>
  Modelled from the spec: \<^verbatim>\<open>tryParsePlan\<close> of \<^verbatim>\<open>lib/types\<close> and the plan schema
  it validates against are not among the sources. A plan is valid when every list
  field is non-empty (the invariant of the data model); strings are not constrained.
\<close>

definition validPlan :: "LeadPlan \<Rightarrow> bool" where
  "validPlan p =
     (successMetrics (campaignSummary p) \<noteq> []
      \<and> companyTraits (idealCustomerProfile p) \<noteq> []
      \<and> buyerPersona (idealCustomerProfile p) \<noteq> []
      \<and> painPoints (idealCustomerProfile p) \<noteq> []
      \<and> messagingPillars p \<noteq> []
      \<and> list_all (\<lambda>pillar. proofPoints pillar \<noteq> []) (messagingPillars p)
      \<and> channelStrategy p \<noteq> []
      \<and> automationWorkflow p \<noteq> []
      \<and> list_all (\<lambda>flow. steps flow \<noteq> []) (automationWorkflow p)
      \<and> experiments p \<noteq> []
      \<and> nextSteps p \<noteq> [])"

text \<open>
  Modelled from the spec: the serialisation of a plan, which the sources leave to
  \<^verbatim>\<open>JSON.stringify\<close>. The plan as a JSON value, its members in the order of the plan
  shape.
\<close>

definition jsonOfStrings :: "string list \<Rightarrow> JSONValue" where
  "jsonOfStrings xs = JArray (map JString xs)"

text \<open>Modelled from the spec: a messaging pillar as a JSON value.\<close>

definition jsonOfPillar :: "MessagingPillar \<Rightarrow> JSONValue" where
  "jsonOfPillar pillar =
     JObject [(''title'', JString (title pillar)),
              (''angle'', JString (angle pillar)),
              (''proofPoints'', jsonOfStrings (proofPoints pillar))]"

text \<open>Modelled from the spec: a channel play as a JSON value.\<close>

definition jsonOfChannelPlay :: "ChannelPlay \<Rightarrow> JSONValue" where
  "jsonOfChannelPlay item =
     JObject [(''channel'', JString (channel item)),
              (''objective'', JString (objective item)),
              (''play'', JString (play item)),
              (''cadence'', JString (cadence item)),
              (''sampleCopy'', JString (sampleCopy item))]"

text \<open>Modelled from the spec: an automation flow as a JSON value.\<close>

definition jsonOfFlow :: "AutomationFlow \<Rightarrow> JSONValue" where
  "jsonOfFlow flow =
     JObject [(''name'', JString (name flow)),
              (''trigger'', JString (trigger flow)),
              (''steps'', jsonOfStrings (steps flow))]"

text \<open>Modelled from the spec: an experiment as a JSON value.\<close>

definition jsonOfExperiment :: "Experiment \<Rightarrow> JSONValue" where
  "jsonOfExperiment e =
     JObject [(''hypothesis'', JString (hypothesis e)),
              (''experiment'', JString (experiment e)),
              (''metric'', JString (metric e))]"

text \<open>Modelled from the spec: the plan as a JSON value, section by section.\<close>

definition jsonOfPlan :: "LeadPlan \<Rightarrow> JSONValue" where
  "jsonOfPlan p =
     JObject
       [(''campaignSummary'',
           JObject [(''northStar'', JString (northStar (campaignSummary p))),
                    (''successMetrics'', jsonOfStrings (successMetrics (campaignSummary p))),
                    (''positioningTheme'', JString (positioningTheme (campaignSummary p)))]),
        (''idealCustomerProfile'',
           JObject [(''companyTraits'', jsonOfStrings (companyTraits (idealCustomerProfile p))),
                    (''buyerPersona'', jsonOfStrings (buyerPersona (idealCustomerProfile p))),
                    (''painPoints'', jsonOfStrings (painPoints (idealCustomerProfile p)))]),
        (''messagingPillars'', JArray (map jsonOfPillar (messagingPillars p))),
        (''channelStrategy'', JArray (map jsonOfChannelPlay (channelStrategy p))),
        (''automationWorkflow'', JArray (map jsonOfFlow (automationWorkflow p))),
        (''experiments'', JArray (map jsonOfExperiment (experiments p))),
        (''nextSteps'', jsonOfStrings (nextSteps p))]"

text \<open>Modelled from the spec: the JSON serialisation of a plan.\<close>

definition stringifyPlan :: "LeadPlan \<Rightarrow> string" where
  "stringifyPlan p = stringify (jsonOfPlan p)"

text \<open>
  Modelled from the spec: the validation of a decoded value against the plan shape.
  A member is looked up by its key (the last one, when a key occurs twice, as
  \<^verbatim>\<open>JSON.parse\<close> keeps it), members that the shape does not name are ignored, every
  text field must be a string and every list field a non-empty array.
\<close>

definition member :: "string \<Rightarrow> JSONValue \<Rightarrow> JSONValue option" where
  "member k j = (case j of JObject ms \<Rightarrow> map_of (rev ms) k | _ \<Rightarrow> None)"

text \<open>Modelled from the spec: a text field must be a string.\<close>

definition stringOf :: "JSONValue \<Rightarrow> string option" where
  "stringOf j = (case j of JString s \<Rightarrow> Some s | _ \<Rightarrow> None)"

text \<open>Modelled from the spec: a list field must be a non-empty array whose elements all decode.\<close>

definition listOf :: "(JSONValue \<Rightarrow> 'a option) \<Rightarrow> JSONValue \<Rightarrow> 'a list option" where
  "listOf decode j =
     (case j of JArray vs \<Rightarrow> if vs = [] then None else those (map decode vs) | _ \<Rightarrow> None)"

text \<open>Modelled from the spec: the text field of the given name.\<close>

definition textField :: "string \<Rightarrow> JSONValue \<Rightarrow> string option" where
  "textField k j = Option.bind (member k j) stringOf"

text \<open>Modelled from the spec: the list field of the given name.\<close>

definition listField :: "string \<Rightarrow> (JSONValue \<Rightarrow> 'a option) \<Rightarrow> JSONValue \<Rightarrow> 'a list option" where
  "listField k decode j = Option.bind (member k j) (listOf decode)"

text \<open>Modelled from the spec: the shape of a messaging pillar.\<close>

definition pillarOf :: "JSONValue \<Rightarrow> MessagingPillar option" where
  "pillarOf j =
     (case (textField ''title'' j, textField ''angle'' j, listField ''proofPoints'' stringOf j) of
        (Some t, Some a, Some ps) \<Rightarrow> Some \<lparr> title = t, angle = a, proofPoints = ps \<rparr>
      | _ \<Rightarrow> None)"

text \<open>Modelled from the spec: the shape of a channel play.\<close>

definition channelPlayOf :: "JSONValue \<Rightarrow> ChannelPlay option" where
  "channelPlayOf j =
     (case (textField ''channel'' j, textField ''objective'' j, textField ''play'' j,
            textField ''cadence'' j, textField ''sampleCopy'' j) of
        (Some c, Some ob, Some pl, Some ca, Some sc) \<Rightarrow>
          Some \<lparr> channel = c, objective = ob, play = pl, cadence = ca, sampleCopy = sc \<rparr>
      | _ \<Rightarrow> None)"

text \<open>Modelled from the spec: the shape of an automation flow.\<close>

definition flowOf :: "JSONValue \<Rightarrow> AutomationFlow option" where
  "flowOf j =
     (case (textField ''name'' j, textField ''trigger'' j, listField ''steps'' stringOf j) of
        (Some n, Some t, Some ss) \<Rightarrow> Some \<lparr> name = n, trigger = t, steps = ss \<rparr>
      | _ \<Rightarrow> None)"

text \<open>Modelled from the spec: the shape of an experiment.\<close>

definition experimentOf :: "JSONValue \<Rightarrow> Experiment option" where
  "experimentOf j =
     (case (textField ''hypothesis'' j, textField ''experiment'' j, textField ''metric'' j) of
        (Some h, Some e, Some m) \<Rightarrow> Some \<lparr> hypothesis = h, experiment = e, metric = m \<rparr>
      | _ \<Rightarrow> None)"

text \<open>Modelled from the spec: the shape of the campaign summary.\<close>

definition summaryOf :: "JSONValue \<Rightarrow> CampaignSummary option" where
  "summaryOf j =
     (case (textField ''northStar'' j, listField ''successMetrics'' stringOf j,
            textField ''positioningTheme'' j) of
        (Some n, Some ms, Some t) \<Rightarrow>
          Some \<lparr> northStar = n, successMetrics = ms, positioningTheme = t \<rparr>
      | _ \<Rightarrow> None)"

text \<open>Modelled from the spec: the shape of the ideal customer profile.\<close>

definition profileOf :: "JSONValue \<Rightarrow> IdealCustomerProfile option" where
  "profileOf j =
     (case (listField ''companyTraits'' stringOf j, listField ''buyerPersona'' stringOf j,
            listField ''painPoints'' stringOf j) of
        (Some ct, Some bp, Some pp) \<Rightarrow>
          Some \<lparr> companyTraits = ct, buyerPersona = bp, painPoints = pp \<rparr>
      | _ \<Rightarrow> None)"

text \<open>Modelled from the spec: the shape of the plan, with its seven sections.\<close>

definition planOfJson :: "JSONValue \<Rightarrow> LeadPlan option" where
  "planOfJson j =
     (case (Option.bind (member ''campaignSummary'' j) summaryOf,
            Option.bind (member ''idealCustomerProfile'' j) profileOf,
            listField ''messagingPillars'' pillarOf j,
            listField ''channelStrategy'' channelPlayOf j,
            listField ''automationWorkflow'' flowOf j,
            listField ''experiments'' experimentOf j,
            listField ''nextSteps'' stringOf j) of
        (Some cs, Some icp, Some mp, Some ch, Some aw, Some ex, Some ns) \<Rightarrow>
          Some \<lparr> campaignSummary = cs, idealCustomerProfile = icp, messagingPillars = mp,
                 channelStrategy = ch, automationWorkflow = aw, experiments = ex,
                 nextSteps = ns \<rparr>
      | _ \<Rightarrow> None)"

text \<open>
  Modelled from the spec: the direct structured decode of step 1 (and of step 2, on the
  span between the braces): the text is parsed as JSON and the value validated against
  the plan shape.
\<close>

definition decodePlan :: "string \<Rightarrow> LeadPlan option" where
  "decodePlan text = Option.bind (JSON_parse text) planOfJson"

subsection \<open>Notions used to state the properties\<close>

text \<open>
  The messages of the issues whose path starts with the given field, in the order of
  the issues.
\<close>

definition fieldMessages :: "string \<Rightarrow> ZodIssue list \<Rightarrow> string list" where
  "fieldMessages field issues =
     map ZodIssue.message
       (filter (\<lambda>sub. case path sub of [] \<Rightarrow> False | k # _ \<Rightarrow> k = field) issues)"

text \<open>
  The response shapes of the inbound interface: status 400 with an error and issues;
  status 200 with a plan, no raw text and a warning; status 200 with a plan and no raw
  text (the notice optional), or with no plan, the raw text and a notice.
\<close>

definition specifiedResponse :: "Response \<Rightarrow> bool" where
  "specifiedResponse r =
     (case body r of
        InvalidInputBody e issues \<Rightarrow> status r = 400
      | WarningBody p rw w \<Rightarrow> status r = 200 \<and> p \<noteq> None \<and> rw = None
      | NoticeBody p rw n \<Rightarrow>
          status r = 200 \<and> (if p \<noteq> None then rw = None else rw \<noteq> None \<and> n \<noteq> None))"

subsection \<open>Example values\<close>

text \<open>A brief in the manner of the form's sample state, with a two-week window.\<close>

definition exampleBrief :: LeadRequest where
  "exampleBrief =
     \<lparr> businessName = ''Lumos Analytics'',
       industry = ''B2B SaaS'',
       productDescription = ''A RevOps intelligence platform'',
       targetCustomer = ''Heads of Demand Gen'',
       uniqueValue = ''Real-time attribution'',
       goals = [''Book discovery calls'', ''Increase demo requests''],
       channels = [''Cold email'', ''LinkedIn outreach'', ''Webinars''],
       tone = ''Data-driven'',
       offer = ''Unlock a free pipeline efficiency audit'',
       notes = None,
       budgetLevel = ''balanced'',
       timeframe = ''2 weeks'' \<rparr>"

text \<open>
  What zod reports for a body whose \<^verbatim>\<open>goals\<close> array holds two values outside the
  enumeration: one issue for each offending element, at the path of that element. The
  wording of the messages is the schema's; the two texts here stand for it.
\<close>

definition twoBadGoals :: "ZodIssue list" where
  "twoBadGoals =
     [\<lparr> path = [''goals'', ''0''], ZodIssue.message = ''Invalid enum value (first goal)'' \<rparr>,
      \<lparr> path = [''goals'', ''1''], ZodIssue.message = ''Invalid enum value (second goal)'' \<rparr>]"

text \<open>A small plan and its JSON text.\<close>

definition examplePlan :: LeadPlan where
  "examplePlan =
     \<lparr> campaignSummary =
         \<lparr> northStar = ''N'', successMetrics = [''M''], positioningTheme = ''P'' \<rparr>,
       idealCustomerProfile =
         \<lparr> companyTraits = [''C''], buyerPersona = [''B''], painPoints = [''Q''] \<rparr>,
       messagingPillars = [\<lparr> title = ''T'', angle = ''A'', proofPoints = [''R''] \<rparr>],
       channelStrategy =
         [\<lparr> channel = ''Webinars'', objective = ''O'', play = ''L'', cadence = ''Weekly'',
            sampleCopy = ''S'' \<rparr>],
       automationWorkflow = [\<lparr> name = ''F'', trigger = ''G'', steps = [''H''] \<rparr>],
       experiments = [\<lparr> hypothesis = ''I'', experiment = ''J'', metric = ''K'' \<rparr>],
       nextSteps = [''U''] \<rparr>"

definition examplePlanText :: string where
  \<open>examplePlanText =
     ''{"campaignSummary":{"northStar":"N","successMetrics":["M"],"positioningTheme":"P"},''
     @ ''"idealCustomerProfile":{"companyTraits":["C"],"buyerPersona":["B"],"painPoints":["Q"]},''
     @ ''"messagingPillars":[{"title":"T","angle":"A","proofPoints":["R"]}],''
     @ ''"channelStrategy":[{"channel":"Webinars","objective":"O","play":"L","cadence":"Weekly","sampleCopy":"S"}],''
     @ ''"automationWorkflow":[{"name":"F","trigger":"G","steps":["H"]}],''
     @ ''"experiments":[{"hypothesis":"I","experiment":"J","metric":"K"}],''
     @ ''"nextSteps":["U"]}''\<close>

text \<open>
  An environment whose request bodies are already shaped like a brief; the validator is
  given, and so are the credential and the client.
\<close>

definition exampleEnv ::
  "(LeadRequest \<Rightarrow> SafeParseReturn) \<Rightarrow> string option \<Rightarrow> OpenAIClient outcome \<Rightarrow> LeadRequest Env" where
  "exampleEnv validator key client =
     \<lparr> OPENAI_API_KEY = key,
       safeParse = validator,
       getOpenAIClient = client,
       buildLeadPlanPrompt = (\<lambda>payload. Returns (''Plan a campaign for '' @ businessName payload)),
       tryParsePlan =
         (\<lambda>modelText. Returns (parsePlan decodePlan ''Recovered the plan from the model output.'' modelText)) \<rparr>"

text \<open>Stand-ins for the collaborators: a client that answers with a text, a client whose
  call fails, a validator that reports given issues, and their counterparts for the form.\<close>

definition replyWith :: "string \<Rightarrow> OpenAIClient" where
  "replyWith text = (\<lambda>request. Returns (ChatCompletion (Some [Choice (Some (CompletionMessage (Some text)))])))"

definition failWith :: "js_error \<Rightarrow> OpenAIClient" where
  "failWith error = (\<lambda>request. Throws error)"

definition rejectWith :: "ZodIssue list \<Rightarrow> LeadRequest \<Rightarrow> SafeParseReturn" where
  "rejectWith issues = (\<lambda>raw_body. SafeParseError issues)"

definition throwWith :: "ZodIssue list \<Rightarrow> LeadRequest \<Rightarrow> LeadRequest outcome" where
  "throwWith issues = (\<lambda>form. Throws (ZodError issues))"

definition noSubmit :: "LeadRequest \<Rightarrow> PageState \<Rightarrow> PageState" where
  "noSubmit payload st = st"

definition examplePage :: PageState where
  "examplePage =
     \<lparr> form = exampleBrief\<lparr>goals := [''x'', ''y'']\<rparr>,
       errors = Map.empty,
       loading = False,
       PageState.plan = None,
       rawPlan = None,
       statusMessage = Some ''Campaign blueprint generated!'' \<rparr>"

section \<open>Properties of the fallback plan\<close>

text \<open>
  Claim C1. The channel strategy of the fallback plan has one entry for each element of
  the brief's channels, and the channel of its i-th entry is the i-th channel of the
  brief. This holds for every brief, validated or not.
\<close>

theorem fallback_channelStrategy_mirrors_channels:
  "length (channelStrategy (buildFallbackPlan b)) = length (channels b) \<and>
   (\<forall>i < length (channels b).
      channel (channelStrategy (buildFallbackPlan b) ! i) = channels b ! i)"
  by (simp add: buildFallbackPlan_def)

theorem fallback_channelStrategy_mirrors_channels_witness:
  "length (channels exampleBrief) = 3 \<and>
   length (channelStrategy (buildFallbackPlan exampleBrief)) = 3 \<and>
   channel (channelStrategy (buildFallbackPlan exampleBrief) ! 1) = ''LinkedIn outreach''"
proof -
  have len: "length (channels exampleBrief) = 3"
    by (simp add: exampleBrief_def)
  have nth: "channels exampleBrief ! 1 = ''LinkedIn outreach''"
    by (simp add: exampleBrief_def)
  from fallback_channelStrategy_mirrors_channels [of exampleBrief] len nth
  show ?thesis by simp
qed

text \<open>
  Claim C5. Every entry of the fallback plan's channel strategy has the cadence
  \<^verbatim>\<open>3x weekly\<close> when the brief's timeframe is \<^verbatim>\<open>2 weeks\<close>, and the cadence
  \<^verbatim>\<open>Weekly\<close> for any other timeframe.
\<close>

theorem fallback_cadence:
  "\<forall>cp \<in> set (channelStrategy (buildFallbackPlan b)).
     cadence cp = (if timeframe b = ''2 weeks'' then ''3x weekly'' else ''Weekly'')"
  by (simp add: buildFallbackPlan_def)

theorem fallback_cadence_witness:
  "channelStrategy (buildFallbackPlan exampleBrief) \<noteq> [] \<and>
   cadence (hd (channelStrategy (buildFallbackPlan exampleBrief))) = ''3x weekly'' \<and>
   cadence (hd (channelStrategy (buildFallbackPlan (exampleBrief\<lparr>timeframe := ''30 days''\<rparr>))))
     = ''Weekly'' \<and>
   cadence (hd (channelStrategy (buildFallbackPlan (exampleBrief\<lparr>timeframe := ''90 days''\<rparr>))))
     = ''Weekly''"
proof -
  have ne: "channelStrategy (buildFallbackPlan b) \<noteq> []" if "channels b \<noteq> []" for b
    using that by (simp add: buildFallbackPlan_def)
  have ch: "channels exampleBrief \<noteq> []"
    by (simp add: exampleBrief_def)
  have tf: "timeframe exampleBrief = ''2 weeks''"
    by (simp add: exampleBrief_def)
  from fallback_cadence [of exampleBrief]
       fallback_cadence [of "exampleBrief\<lparr>timeframe := ''30 days''\<rparr>"]
       fallback_cadence [of "exampleBrief\<lparr>timeframe := ''90 days''\<rparr>"]
       ne [of exampleBrief] ne [of "exampleBrief\<lparr>timeframe := ''30 days''\<rparr>"]
       ne [of "exampleBrief\<lparr>timeframe := ''90 days''\<rparr>"] ch tf
  show ?thesis by simp
qed

text \<open>
  Claim C10. The fallback plan depends only on the business name, the industry, the
  product description, the unique value, the channels, the offer, the budget level and
  the timeframe: two briefs that agree on these eight fields, whatever their goals,
  tone, notes and target customer, get the same plan.
\<close>

theorem fallback_depends_on_eight_fields:
  assumes "businessName b = businessName b'"
    and "industry b = industry b'"
    and "productDescription b = productDescription b'"
    and "uniqueValue b = uniqueValue b'"
    and "channels b = channels b'"
    and "offer b = offer b'"
    and "budgetLevel b = budgetLevel b'"
    and "timeframe b = timeframe b'"
  shows "buildFallbackPlan b = buildFallbackPlan b'"
  using assms by (simp add: buildFallbackPlan_def)

theorem fallback_depends_on_eight_fields_witness:
  "exampleBrief \<noteq> exampleBrief\<lparr>goals := [''Grow newsletter''], tone := ''Bold'',
                                   notes := Some ''Partnered with Gong'',
                                   targetCustomer := ''Founders''\<rparr> \<and>
   buildFallbackPlan exampleBrief =
     buildFallbackPlan (exampleBrief\<lparr>goals := [''Grow newsletter''], tone := ''Bold'',
                                       notes := Some ''Partnered with Gong'',
                                       targetCustomer := ''Founders''\<rparr>)"
proof -
  let ?b' = "exampleBrief\<lparr>goals := [''Grow newsletter''], tone := ''Bold'',
                           notes := Some ''Partnered with Gong'',
                           targetCustomer := ''Founders''\<rparr>"
  have differ: "exampleBrief \<noteq> ?b'"
  proof
    assume "exampleBrief = ?b'"
    then have "tone exampleBrief = tone ?b'" by simp
    then show False by (simp add: exampleBrief_def)
  qed
  have "buildFallbackPlan exampleBrief = buildFallbackPlan ?b'"
    by (rule fallback_depends_on_eight_fields) simp_all
  with differ show ?thesis by simp
qed

text \<open>
  The fallback plan is a valid plan as soon as the brief names a channel, which the
  request schema requires.
\<close>

lemma validPlan_buildFallbackPlan: "validPlan (buildFallbackPlan b) \<longleftrightarrow> channels b \<noteq> []"
  by (simp add: validPlan_def buildFallbackPlan_def)

section \<open>Properties of the JSON reader and writer\<close>

text \<open>What \<^const>\<open>quoteString\<close> writes, \<^const>\<open>parseChars\<close> reads back.\<close>

lemma char_eqI: "(of_char c :: nat) = of_char d \<Longrightarrow> c = d"
  by (simp add: of_char_eq_iff)

lemma hexValue_hexDigit: "d < 16 \<Longrightarrow> hexValue (hexDigit d) = Some d"
  by (simp add: hexValue_def hexDigit_def)

lemma parseChars_escapeChar: "parseChars (escapeChar c @ rest) = consChars [c] (parseChars rest)"
proof -
  define n where "n = (of_char c :: nat)"
  have c: "c = char_of n" by (simp add: n_def)
  have lits: "char_of (0x22 :: nat) = CHR 0x22" "char_of (0x5C :: nat) = CHR 0x5C"
    "char_of (8 :: nat) = CHR 0x08" "char_of (9 :: nat) = CHR 0x09"
    "char_of (10 :: nat) = CHR 0x0A" "char_of (12 :: nat) = CHR 0x0C"
    "char_of (13 :: nat) = CHR 0x0D"
    by (rule char_eqI, simp)+
  consider "n = 0x22" | "n = 0x5C" | "n = 8" | "n = 9" | "n = 10" | "n = 12" | "n = 13"
    | "n < 0x20" "n \<noteq> 8" "n \<noteq> 9" "n \<noteq> 10" "n \<noteq> 12" "n \<noteq> 13"
    | "0x20 \<le> n" "n \<noteq> 0x22" "n \<noteq> 0x5C"
    by linarith
  then show ?thesis
  proof cases
    case 8
    have hi: "n div 16 < 16" and lo: "n mod 16 < 16" using 8(1) by simp_all
    have code: "hexCode (CHR ''0'') (CHR ''0'') (hexDigit (n div 16)) (hexDigit (n mod 16)) = Some n"
      by (simp add: hexCode_def hexValue_hexDigit [OF hi] hexValue_hexDigit [OF lo])
         (simp add: hexValue_def)
    have esc: "escapeChar c = [CHR 0x5C, CHR ''u'', CHR ''0'', CHR ''0'', hexDigit (n div 16), hexDigit (n mod 16)]"
      using 8 by (simp add: escapeChar_def n_def [symmetric])
    have "utf8 n = [c]" using 8(1) by (simp add: utf8_def c)
    with 8(1) show ?thesis
      by (simp add: esc code)
  next
    case 9
    have esc: "escapeChar c = [c]"
      using 9 by (simp add: escapeChar_def n_def [symmetric])
    have "c \<noteq> CHR 0x22" "c \<noteq> CHR 0x5C" using 9 by (auto simp: n_def)
    moreover have "\<not> (of_char c :: nat) < 0x20" using 9 by (simp add: n_def)
    ultimately show ?thesis by (simp add: esc)
  qed (simp_all add: c lits escapeChar_def unescape_def)
qed

lemma parseChars_quoted:
  "parseChars (concat (map escapeChar s) @ CHR 0x22 # rest) = Some (s, rest)"
  by (induction s) (simp_all add: parseChars_escapeChar consChars_def)

lemma parseChars_shorter: "parseChars t = Some (s, rest) \<Longrightarrow> length rest < length t"
proof (induction t arbitrary: s rest rule: parseChars.induct)
  case 1
  then show ?case by simp
next
  case (2 c cs)
  show ?case
    using "2.prems" "2.IH"
    by (fastforce simp add: consChars_def split: if_splits list.splits option.splits)
qed

text \<open>
  What \<^const>\<open>stringify\<close> writes for a value without numbers, \<^const>\<open>parseValue\<close> reads
  back, whatever follows it.
\<close>

lemma stringify_head:
  assumes "numberFree j"
  shows "\<exists>c cs. stringify j = c # cs \<and> \<not> isWs c \<and> c \<noteq> CHR '']'' \<and> c \<noteq> CHR ''}''"
  using assms by (cases j) (simp_all add: isWs_def quoteString_def)

lemma skipWs_stringify:
  assumes "numberFree j"
  shows "skipWs (stringify j @ rest) = stringify j @ rest"
proof -
  from stringify_head [OF assms] obtain c cs where "stringify j = c # cs" "\<not> isWs c"
    by blast
  then show ?thesis by (simp add: skipWs_def)
qed

lemma skipWs_mark [simp]:
  "skipWs (CHR '','' # rest) = CHR '','' # rest"
  "skipWs (CHR '':'' # rest) = CHR '':'' # rest"
  "skipWs (CHR '']'' # rest) = CHR '']'' # rest"
  "skipWs (CHR ''}'' # rest) = CHR ''}'' # rest"
  "skipWs (CHR ''['' # rest) = CHR ''['' # rest"
  "skipWs (CHR ''{'' # rest) = CHR ''{'' # rest"
  "skipWs (CHR 0x22 # rest) = CHR 0x22 # rest"
  by (simp_all add: skipWs_def isWs_def)

lemma parseValue_quoteString:
  "parseValue (quoteString s @ rest) = Some (JString s, rest)"
  by (subst parseValue.simps) (simp add: quoteString_def parseChars_quoted)

lemma parseElements_commaJoin:
  assumes "vs \<noteq> []"
    and "\<And>v r. v \<in> set vs \<Longrightarrow> parseValue (stringify v @ r) = Some (v, r)"
    and "\<And>v. v \<in> set vs \<Longrightarrow> stringify v \<noteq> []"
  shows "parseElements (commaJoin (map stringify vs) @ CHR '']'' # rest) = Some (vs, rest)"
  using assms
proof (induction vs rule: list_nonempty_induct)
  case (single v)
  then show ?case
    by (subst parseElements.simps) simp
next
  case (cons v vs)
  obtain w ws where vs: "vs = w # ws"
    using cons.hyps by (cases vs) auto
  have tail: "parseElements (commaJoin (map stringify vs) @ CHR '']'' # rest) = Some (vs, rest)"
    using cons by simp
  have "commaJoin (map stringify (v # vs)) @ CHR '']'' # rest
          = stringify v @ CHR '','' # commaJoin (map stringify vs) @ CHR '']'' # rest"
    by (simp add: vs)
  then show ?case
    using cons.prems tail by (subst parseElements.simps) simp
qed

lemma parseMembers_member:
  assumes "parseValue (stringify v @ mark # rest) = Some (v, mark # rest)"
    and "stringify v \<noteq> []"
  shows "parseMembers (memberText (k, v) @ mark # rest) =
           (if mark = CHR '','' then map_option (\<lambda>(ms, rest'). ((k, v) # ms, rest')) (parseMembers rest)
            else if mark = CHR ''}'' then Some ([(k, v)], rest)
            else (case skipWs (mark # rest) of
                    [] \<Rightarrow> None
                  | c # cs2 \<Rightarrow>
                      if c = CHR '','' then map_option (\<lambda>(ms, rest'). ((k, v) # ms, rest')) (parseMembers cs2)
                      else if c = CHR ''}'' then Some ([(k, v)], cs2) else None))"
  using assms
  by (subst parseMembers.simps)
     (simp add: memberText_def quoteString_def parseChars_quoted)

lemma parseMembers_commaJoin:
  assumes "ms \<noteq> []"
    and "\<And>k v r. (k, v) \<in> set ms \<Longrightarrow> parseValue (stringify v @ r) = Some (v, r)"
    and "\<And>k v. (k, v) \<in> set ms \<Longrightarrow> stringify v \<noteq> []"
  shows "parseMembers (commaJoin (map memberText ms) @ CHR ''}'' # rest) = Some (ms, rest)"
  using assms
proof (induction ms rule: list_nonempty_induct)
  case (single m)
  obtain k v where m: "m = (k, v)" by (cases m)
  from single show ?case
    by (simp add: m parseMembers_member)
next
  case (cons m ms)
  obtain k v where m: "m = (k, v)" by (cases m)
  obtain m' ms' where ms: "ms = m' # ms'"
    using cons.hyps by (cases ms) auto
  have tail: "parseMembers (commaJoin (map memberText ms) @ CHR ''}'' # rest) = Some (ms, rest)"
  proof (rule cons.IH)
    show "parseValue (stringify v' @ r) = Some (v', r)" if "(k', v') \<in> set ms" for k' v' r
      using cons.prems(1) [of k' v' r] that by simp
    show "stringify v' \<noteq> []" if "(k', v') \<in> set ms" for k' v'
      using cons.prems(2) [of k' v'] that by simp
  qed
  have shape: "commaJoin (map memberText (m # ms)) @ CHR ''}'' # rest
          = memberText (k, v) @ CHR '','' # commaJoin (map memberText ms) @ CHR ''}'' # rest"
    by (simp add: ms m)
  have parsed: "parseValue (stringify v @ CHR '','' # commaJoin (map memberText ms) @ CHR ''}'' # rest)
                 = Some (v, CHR '','' # commaJoin (map memberText ms) @ CHR ''}'' # rest)"
    using cons.prems(1) [of k v] by (simp add: m)
  have nonempty: "stringify v \<noteq> []"
    using cons.prems(2) [of k v] by (simp add: m)
  show ?case
    unfolding shape using parseMembers_member [OF parsed nonempty, of k] tail
    by (simp add: m)
qed

lemma stringify_JObject:
  "stringify (JObject ms) = CHR ''{'' # commaJoin (map memberText ms) @ [CHR ''}'']"
proof -
  have "(\<lambda>(k, v). quoteString k @ CHR '':'' # stringify v) = memberText"
    by (auto simp: memberText_def fun_eq_iff)
  then show ?thesis by simp
qed

lemma commaJoin_head:
  "xs \<noteq> [] \<Longrightarrow> hd xs \<noteq> [] \<Longrightarrow> commaJoin xs @ rest = hd (hd xs) # tl (commaJoin xs @ rest)"
  by (induction xs rule: commaJoin.induct) auto

theorem parseValue_stringify:
  "numberFree j \<Longrightarrow> parseValue (stringify j @ rest) = Some (j, rest)"
proof (induction j arbitrary: rest)
  case JNull
  show ?case by (subst parseValue.simps) (simp add: skipWs_def isWs_def parseAtom_def)
next
  case (JBool b)
  show ?case by (subst parseValue.simps) (simp add: skipWs_def isWs_def parseAtom_def)
next
  case (JNumber token)
  then show ?case by simp
next
  case (JString s)
  show ?case using parseValue_quoteString by simp
next
  case (JArray vs)
  show ?case
  proof (cases vs)
    case Nil
    then show ?thesis by (subst parseValue.simps) simp
  next
    case (Cons v vs')
    have free: "numberFree x" if "x \<in> set vs" for x
      using JArray.prems that by (simp add: list_all_iff)
    have each: "parseValue (stringify x @ r) = Some (x, r)" if "x \<in> set vs" for x r
      using JArray.IH [OF that free [OF that]] .
    have nonempty: "stringify x \<noteq> []" if "x \<in> set vs" for x
      using stringify_head [OF free [OF that]] by auto
    have elements: "parseElements (commaJoin (map stringify vs) @ CHR '']'' # rest) = Some (vs, rest)"
      by (rule parseElements_commaJoin) (use Cons each nonempty in auto)
    from stringify_head [OF free [of v]] obtain c cs
      where first: "stringify v = c # cs" "\<not> isWs c" "c \<noteq> CHR '']''"
      by (auto simp: Cons)
    then obtain tail' where shape: "commaJoin (map stringify vs) @ CHR '']'' # rest = c # tail'"
      by (cases vs') (auto simp: Cons)
    have "skipWs (c # tail') = c # tail'"
      using first(2) by (simp add: skipWs_def)
    with first(3) elements shape show ?thesis
      by (subst parseValue.simps) simp
  qed
next
  case (JObject ms)
  show ?case
  proof (cases ms)
    case Nil
    then show ?thesis by (subst parseValue.simps) simp
  next
    case (Cons m ms')
    have free: "numberFree v" if "(k, v) \<in> set ms" for k v
      using JObject.prems that by (auto simp add: list_all_iff)
    have each: "parseValue (stringify v @ r) = Some (v, r)" if "(k, v) \<in> set ms" for k v r
      using JObject.IH [of "(k, v)" v r] that free [OF that] by simp
    have nonempty: "stringify v \<noteq> []" if "(k, v) \<in> set ms" for k v
      using stringify_head [OF free [OF that]] by auto
    have members: "parseMembers (commaJoin (map memberText ms) @ CHR ''}'' # rest) = Some (ms, rest)"
      by (rule parseMembers_commaJoin) (use Cons each nonempty in auto)
    obtain k v where m: "m = (k, v)" by (cases m)
    obtain tail' where shape: "commaJoin (map memberText ms) @ CHR ''}'' # rest = CHR 0x22 # tail'"
      by (cases ms') (auto simp: Cons m memberText_def quoteString_def)
    with members show ?thesis
      by (subst parseValue.simps) (simp add: stringify_JObject del: stringify.simps)
  qed
qed

lemma JSON_parse_stringify: "numberFree j \<Longrightarrow> JSON_parse (stringify j) = Some j"
  using parseValue_stringify [of j "[]"] by (simp add: JSON_parse_def skipWs_def)

text \<open>
  Every parser consumes text when it succeeds, so the tests on the length of what is
  left in \<^const>\<open>parseElements\<close> and \<^const>\<open>parseMembers\<close> never fail.
\<close>

lemma skipWs_shorter: "skipWs t = c # cs \<Longrightarrow> length cs < length t"
proof -
  assume "skipWs t = c # cs"
  moreover have "length (skipWs t) \<le> length t"
    by (simp add: skipWs_def length_dropWhile_le)
  ultimately show ?thesis by simp
qed

lemma digitsThen_shorter: "digitsThen t = Some (ds, rest) \<Longrightarrow> length rest < length t"
proof -
  assume a: "digitsThen t = Some (ds, rest)"
  then have rest: "rest = dropWhile isDigit t" and ds: "takeWhile isDigit t \<noteq> []"
    by (auto simp: digitsThen_def Let_def split: if_splits)
  from ds obtain d ds' where "takeWhile isDigit t = d # ds'"
    by (cases "takeWhile isDigit t") auto
  then have "length t = Suc (length ds') + length (dropWhile isDigit t)"
    by (metis length_Cons length_append takeWhile_dropWhile_id)
  with rest show ?thesis by simp
qed

lemma signPart_shorter: "signPart t = (sign, rest) \<Longrightarrow> length rest \<le> length t"
  by (auto simp: signPart_def split: list.splits if_splits)

lemma fractionPart_shorter: "fractionPart t = Some (fp, rest) \<Longrightarrow> length rest \<le> length t"
  by (auto simp: fractionPart_def split: list.splits if_splits dest!: digitsThen_shorter)

lemma exponentPart_shorter: "exponentPart t = Some (ep, rest) \<Longrightarrow> length rest \<le> length t"
  by (auto simp: exponentPart_def split: list.splits if_splits dest!: digitsThen_shorter)

lemma parseNumber_shorter: "parseNumber t = Some (token, rest) \<Longrightarrow> length rest < length t"
proof -
  assume a: "parseNumber t = Some (token, rest)"
  obtain sign t0 where s: "signPart t = (sign, t0)" by (cases "signPart t")
  from a s obtain ip t1 where d: "digitsThen t0 = Some (ip, t1)"
    by (auto simp: parseNumber_def split: option.splits)
  from a s d obtain fp t2 where f: "fractionPart t1 = Some (fp, t2)"
    by (auto simp: parseNumber_def split: option.splits if_splits)
  from a s d f obtain ep where e: "exponentPart t2 = Some (ep, rest)"
    by (auto simp: parseNumber_def split: option.splits if_splits)
  from signPart_shorter [OF s] digitsThen_shorter [OF d] fractionPart_shorter [OF f]
       exponentPart_shorter [OF e]
  show ?thesis by simp
qed

lemma parseAtom_shorter: "parseAtom t = Some (v, rest) \<Longrightarrow> length rest < length t"
proof -
  assume a: "parseAtom t = Some (v, rest)"
  have four: "length (drop 4 t) < length t" if "take 4 t = x" "length x = 4" for x
    using that by (cases t) auto
  have five: "length (drop 5 t) < length t" if "take 5 t = x" "length x = 5" for x
    using that by (cases t) auto
  from a show ?thesis
    unfolding parseAtom_def
    by (auto split: if_splits dest: parseNumber_shorter four five)
qed

lemma parse_shorter:
  "parseValue t = Some (v, rest) \<Longrightarrow> length rest < length t"
  "parseElements t1 = Some (vs, rest1) \<Longrightarrow> length rest1 < length t1"
  "parseMembers t2 = Some (ms, rest2) \<Longrightarrow> length rest2 < length t2"
proof (induction t and t1 and t2 arbitrary: v rest and vs rest1 and ms rest2
       rule: parseValue_parseElements_parseMembers.induct)
  case (1 t)
  note run = "1.prems" [unfolded parseValue.simps [of t]]
  from run obtain c cs where sk: "skipWs t = c # cs"
    by (cases "skipWs t") auto
  note lt = skipWs_shorter [OF sk]
  consider (object) "c = CHR ''{''" | (array) "c \<noteq> CHR ''{''" "c = CHR ''[''"
    | (string) "c \<noteq> CHR ''{''" "c \<noteq> CHR ''[''" "c = CHR 0x22"
    | (atom) "c \<noteq> CHR ''{''" "c \<noteq> CHR ''[''" "c \<noteq> CHR 0x22"
    by blast
  then show ?case
  proof cases
    case object
    from run sk object obtain d ds where sk2: "skipWs cs = d # ds"
      by (cases "skipWs cs") auto
    show ?thesis
    proof (cases "d = CHR ''}''")
      case True
      with run sk object sk2 have "rest = ds" by simp
      with skipWs_shorter [OF sk2] lt show ?thesis by simp
    next
      case False
      with run sk object sk2 obtain ms' where "parseMembers cs = Some (ms', rest)"
        by auto
      from "1.IH"(1) [OF sk object sk2 False this] lt show ?thesis by simp
    qed
  next
    case array
    from run sk array obtain d ds where sk2: "skipWs cs = d # ds"
      by (cases "skipWs cs") auto
    show ?thesis
    proof (cases "d = CHR '']''")
      case True
      with run sk array sk2 have "rest = ds" by simp
      with skipWs_shorter [OF sk2] lt show ?thesis by simp
    next
      case False
      with run sk array sk2 obtain vs' where "parseElements cs = Some (vs', rest)"
        by auto
      from "1.IH"(2) [OF sk array sk2 False this] lt show ?thesis by simp
    qed
  next
    case string
    with run sk obtain s where "parseChars cs = Some (s, rest)"
      by auto
    from parseChars_shorter [OF this] lt show ?thesis by simp
  next
    case atom
    with run sk have "parseAtom (c # cs) = Some (v, rest)"
      by simp
    from parseAtom_shorter [OF this] lt show ?thesis by simp
  qed
next
  case (2 t)
  note run = "2.prems" [unfolded parseElements.simps [of t]]
  from run obtain v r where pv: "parseValue t = Some (v, r)"
    by (cases "parseValue t") auto
  from run pv have guard: "length r < length t"
    by (simp split: if_splits)
  from run pv guard obtain c cs where sk: "skipWs r = c # cs"
    by (cases "skipWs r") auto
  note lt = skipWs_shorter [OF sk]
  show ?case
  proof (cases "c = CHR '',''")
    case True
    with run pv guard sk obtain vs' where "parseElements cs = Some (vs', rest1)"
      by auto
    from "2.IH"(2) [OF pv refl guard sk True this] lt guard show ?thesis by simp
  next
    case False
    with run pv guard sk have "rest1 = cs"
      by (simp split: if_splits)
    with lt guard show ?thesis by simp
  qed
next
  case (3 t)
  note run = "3.prems" [unfolded parseMembers.simps [of t]]
  from run obtain q cs where sk: "skipWs t = q # cs"
    by (cases "skipWs t") auto
  from run sk have q: "q = CHR 0x22"
    by (simp split: if_splits)
  from run sk q obtain k r where pc: "parseChars cs = Some (k, r)"
    by (cases "parseChars cs") auto
  from run sk q pc have guard: "length r < length cs"
    by (simp split: if_splits)
  from run sk q pc guard obtain colon cs1 where sk1: "skipWs r = colon # cs1"
    by (cases "skipWs r") auto
  from run sk q pc guard sk1 have colon: "colon = CHR '':''"
    by (simp split: if_splits)
  from run sk q pc guard sk1 colon obtain v r1 where pv: "parseValue cs1 = Some (v, r1)"
    by (cases "parseValue cs1") auto
  from run sk q pc guard sk1 colon pv have guard1: "length r1 < length cs1"
    by (simp split: if_splits)
  from run sk q pc guard sk1 colon pv guard1 obtain c cs2 where sk2: "skipWs r1 = c # cs2"
    by (cases "skipWs r1") auto
  note lts = skipWs_shorter [OF sk] skipWs_shorter [OF sk1] skipWs_shorter [OF sk2] guard guard1
  show ?case
  proof (cases "c = CHR '',''")
    case True
    with run sk q pc guard sk1 colon pv guard1 sk2
    obtain ms' where "parseMembers cs2 = Some (ms', rest2)"
      by auto
    from "3.IH"(2) [OF sk q pc refl guard sk1 colon pv refl guard1 sk2 True this] lts
    show ?thesis by simp
  next
    case False
    with run sk q pc guard sk1 colon pv guard1 sk2 have "rest2 = cs2"
      by (simp split: if_splits)
    with lts show ?thesis by simp
  qed
qed

section \<open>Properties of the plan parser\<close>

lemma those_map_Some:
  "(\<And>x. x \<in> set xs \<Longrightarrow> decode (encode x) = Some x) \<Longrightarrow>
   those (map (decode \<circ> encode) xs) = Some xs"
  by (induction xs) simp_all

lemma listOf_map:
  assumes "xs \<noteq> []" and "\<And>x. x \<in> set xs \<Longrightarrow> decode (encode x) = Some x"
  shows "listOf decode (JArray (map encode xs)) = Some xs"
  using assms by (simp add: listOf_def those_map_Some)

lemma listOf_strings: "xs \<noteq> [] \<Longrightarrow> listOf stringOf (jsonOfStrings xs) = Some xs"
  unfolding jsonOfStrings_def by (rule listOf_map) (simp_all add: stringOf_def)

lemma pillarOf_jsonOfPillar:
  "proofPoints pillar \<noteq> [] \<Longrightarrow> pillarOf (jsonOfPillar pillar) = Some pillar"
  by (simp add: pillarOf_def jsonOfPillar_def textField_def listField_def member_def
                stringOf_def listOf_strings)

lemma channelPlayOf_jsonOfChannelPlay: "channelPlayOf (jsonOfChannelPlay item) = Some item"
  by (simp add: channelPlayOf_def jsonOfChannelPlay_def textField_def member_def stringOf_def)

lemma flowOf_jsonOfFlow: "steps flow \<noteq> [] \<Longrightarrow> flowOf (jsonOfFlow flow) = Some flow"
  by (simp add: flowOf_def jsonOfFlow_def textField_def listField_def member_def
                stringOf_def listOf_strings)

lemma experimentOf_jsonOfExperiment: "experimentOf (jsonOfExperiment e) = Some e"
  by (simp add: experimentOf_def jsonOfExperiment_def textField_def member_def stringOf_def)

lemma planOfJson_jsonOfPlan:
  assumes "validPlan p"
  shows "planOfJson (jsonOfPlan p) = Some p"
proof -
  have pillars: "listOf pillarOf (JArray (map jsonOfPillar (messagingPillars p))) = Some (messagingPillars p)"
    using assms by (intro listOf_map pillarOf_jsonOfPillar) (auto simp: validPlan_def list_all_iff)
  have plays: "listOf channelPlayOf (JArray (map jsonOfChannelPlay (channelStrategy p))) = Some (channelStrategy p)"
    using assms by (intro listOf_map channelPlayOf_jsonOfChannelPlay) (auto simp: validPlan_def)
  have flows: "listOf flowOf (JArray (map jsonOfFlow (automationWorkflow p))) = Some (automationWorkflow p)"
    using assms by (intro listOf_map flowOf_jsonOfFlow) (auto simp: validPlan_def list_all_iff)
  have exps: "listOf experimentOf (JArray (map jsonOfExperiment (experiments p))) = Some (experiments p)"
    using assms by (intro listOf_map experimentOf_jsonOfExperiment) (auto simp: validPlan_def)
  have summary: "summaryOf (JObject [(''northStar'', JString (northStar (campaignSummary p))),
                    (''successMetrics'', jsonOfStrings (successMetrics (campaignSummary p))),
                    (''positioningTheme'', JString (positioningTheme (campaignSummary p)))])
                 = Some (campaignSummary p)"
    using assms
    by (simp add: summaryOf_def textField_def listField_def member_def stringOf_def
                  listOf_strings validPlan_def)
  have profile: "profileOf (JObject [(''companyTraits'', jsonOfStrings (companyTraits (idealCustomerProfile p))),
                    (''buyerPersona'', jsonOfStrings (buyerPersona (idealCustomerProfile p))),
                    (''painPoints'', jsonOfStrings (painPoints (idealCustomerProfile p)))])
                 = Some (idealCustomerProfile p)"
    using assms
    by (simp add: profileOf_def listField_def member_def listOf_strings validPlan_def)
  have steps: "listOf stringOf (jsonOfStrings (nextSteps p)) = Some (nextSteps p)"
    using assms by (simp add: listOf_strings validPlan_def)
  show ?thesis
    by (simp add: planOfJson_def jsonOfPlan_def listField_def member_def
                  pillars plays flows exps summary profile steps)
qed

lemma numberFree_jsonOfPlan: "numberFree (jsonOfPlan p)"
  by (simp add: jsonOfPlan_def jsonOfStrings_def jsonOfPillar_def jsonOfChannelPlay_def
                jsonOfFlow_def jsonOfExperiment_def list_all_iff)

lemma decodePlan_stringifyPlan:
  assumes "validPlan p"
  shows "decodePlan (stringifyPlan p) = Some p"
  by (simp add: decodePlan_def stringifyPlan_def JSON_parse_stringify [OF numberFree_jsonOfPlan]
                planOfJson_jsonOfPlan [OF assms])

lemma parsePlan_failure:
  assumes "plan (parsePlan decode note modelText) = None"
  shows "parsePlan decode note modelText =
           \<lparr> plan = None, raw = Some modelText,
             message = Some ''model output could not be parsed as a structured plan'' \<rparr>"
  using assms unfolding parsePlan_def Let_def by (auto split: option.splits)

lemma outerBraceSpan_no_brace: "CHR ''{'' \<notin> set modelText \<Longrightarrow> outerBraceSpan modelText = None"
proof -
  assume "CHR ''{'' \<notin> set modelText"
  then have none: "dropWhile (\<lambda>c. c \<noteq> CHR ''{'') modelText = []"
    by (auto simp: dropWhile_eq_Nil_conv)
  show ?thesis
    unfolding outerBraceSpan_def Let_def none by simp
qed

lemma outerBraceSpan_wrapped:
  assumes "CHR ''{'' \<notin> set before" and "CHR ''}'' \<notin> set after"
  shows "outerBraceSpan (before @ CHR ''{'' # inner @ CHR ''}'' # after)
           = Some (CHR ''{'' # inner @ [CHR ''}''])"
proof -
  have first: "dropWhile (\<lambda>c. c \<noteq> CHR ''{'') (before @ CHR ''{'' # inner @ CHR ''}'' # after)
                 = CHR ''{'' # inner @ CHR ''}'' # after"
    using assms(1) by (auto simp add: dropWhile_append3)
  have "rev (CHR ''{'' # inner @ CHR ''}'' # after) = rev after @ CHR ''}'' # rev inner @ [CHR ''{'']"
    by simp
  moreover have "dropWhile (\<lambda>c. c \<noteq> CHR ''}'') (rev after @ CHR ''}'' # rev inner @ [CHR ''{''])
                   = CHR ''}'' # rev inner @ [CHR ''{'']"
    using assms(2) by (auto simp add: dropWhile_append3)
  ultimately have last: "rev (dropWhile (\<lambda>c. c \<noteq> CHR ''}'') (rev (CHR ''{'' # inner @ CHR ''}'' # after)))
                   = CHR ''{'' # inner @ [CHR ''}'']"
    by simp
  show ?thesis
    unfolding outerBraceSpan_def Let_def first last by simp
qed

lemma outerBraceSpan_stray_braces:
  "outerBraceSpan ''Sure! {a{b}c} d } e'' = Some ''{a{b}c} d }''"
  by (simp add: outerBraceSpan_def)

lemma parsePlan_recovers:
  assumes "decode modelText = None"
    and "outerBraceSpan modelText = Some candidate"
    and "decode candidate = Some p"
  shows "parsePlan decode recoveryNote modelText =
           \<lparr> plan = Some p, raw = None, message = Some recoveryNote \<rparr>"
  using assms by (simp add: parsePlan_def)

text \<open>
  Claim C9. For every valid plan, the parser applied to the JSON serialisation of the
  plan returns that plan, with no raw text and no message: the text is read back by
  the JSON reader, the value passes the validation against the plan shape and yields
  the plan it was written from, so the first step of the parser decides.
\<close>

theorem parsePlan_roundtrip:
  assumes "validPlan p"
  shows "parsePlan decodePlan recoveryNote (stringifyPlan p) =
           \<lparr> plan = Some p, raw = None, message = None \<rparr>"
proof -
  have "numberFree (jsonOfPlan p)"
    by (rule numberFree_jsonOfPlan)
  then have "JSON_parse (stringifyPlan p) = Some (jsonOfPlan p)"
    unfolding stringifyPlan_def by (rule JSON_parse_stringify)
  moreover have "planOfJson (jsonOfPlan p) = Some p"
    using assms by (rule planOfJson_jsonOfPlan)
  ultimately have "decodePlan (stringifyPlan p) = Some p"
    by (simp add: decodePlan_def)
  then show ?thesis
    by (simp add: parsePlan_def)
qed

lemma stringifyPlan_examplePlan: "stringifyPlan examplePlan = examplePlanText"
  by (simp add: stringifyPlan_def jsonOfPlan_def jsonOfStrings_def jsonOfPillar_def
                jsonOfChannelPlay_def jsonOfFlow_def jsonOfExperiment_def examplePlan_def
                examplePlanText_def quoteString_def escapeChar_def)

theorem parsePlan_roundtrip_witness:
  "validPlan examplePlan \<and>
   parsePlan decodePlan ''Recovered the plan from the model output.'' examplePlanText =
     \<lparr> plan = Some examplePlan, raw = None, message = None \<rparr>"
proof -
  have valid: "validPlan examplePlan"
    by (simp add: validPlan_def examplePlan_def)
  from parsePlan_roundtrip [OF valid, of "''Recovered the plan from the model output.''"] valid
  show ?thesis by (simp add: stringifyPlan_examplePlan)
qed

text \<open>
  The recovery step on the specification's own example: a valid plan wrapped in prose
  is recovered from the span between the outermost braces, with the recovery noted.
\<close>

lemma parseValue_prose: "parseValue (CHR ''S'' # rest) = None" "parseValue (CHR ''I'' # rest) = None"
  by (subst parseValue.simps,
      simp add: skipWs_def isWs_def parseAtom_def parseNumber_def signPart_def digitsThen_def
                isDigit_def)+

lemma parsePlan_recovers_wrapped_plan:
  assumes "validPlan p"
  shows "parsePlan decodePlan recoveryNote
           (''Sure! Here you go: '' @ stringifyPlan p @ '' Hope that helps.'') =
           \<lparr> plan = Some p, raw = None, message = Some recoveryNote \<rparr>"
proof -
  let ?before = "''Sure! Here you go: ''"
  let ?after = "'' Hope that helps.''"
  obtain inner where inner: "stringifyPlan p = CHR ''{'' # inner @ [CHR ''}'']"
    by (simp add: stringifyPlan_def jsonOfPlan_def stringify_JObject del: stringify.simps)
  have whole: "decodePlan (?before @ stringifyPlan p @ ?after) = None"
    by (simp add: decodePlan_def JSON_parse_def parseValue_prose)
  have "outerBraceSpan (?before @ CHR ''{'' # inner @ CHR ''}'' # ?after)
          = Some (CHR ''{'' # inner @ [CHR ''}''])"
    by (rule outerBraceSpan_wrapped) simp_all
  then have candidate: "outerBraceSpan (?before @ stringifyPlan p @ ?after) = Some (stringifyPlan p)"
    by (simp add: inner)
  from parsePlan_recovers [OF whole candidate decodePlan_stringifyPlan [OF assms]]
  show ?thesis .
qed

lemma parsePlan_refusal:
  "parsePlan decodePlan note ''I cannot help with that.'' =
     \<lparr> plan = None, raw = Some ''I cannot help with that.'',
       message = Some ''model output could not be parsed as a structured plan'' \<rparr>"
proof -
  have "decodePlan ''I cannot help with that.'' = None"
    by (simp add: decodePlan_def JSON_parse_def parseValue_prose)
  moreover have "outerBraceSpan ''I cannot help with that.'' = None"
    by (rule outerBraceSpan_no_brace) simp
  ultimately show ?thesis by (simp add: parsePlan_def)
qed

section \<open>Properties of the request handler\<close>

text \<open>
  Claim C2. For a body that the validator accepts as the brief \<open>payload\<close>, and with no
  credential configured (the variable unset or empty), the handler answers with status
  200, the fallback plan of that brief, no raw text and a warning. The effect list is
  empty: the model is not called.
\<close>

theorem POST_without_credential:
  assumes "json request = Returns raw_body"
    and "safeParse env raw_body = SafeParseSuccess payload"
    and "\<not> truthy (OPENAI_API_KEY env)"
  shows "POST env request =
           (Returns \<lparr> body = WarningBody (Some (buildFallbackPlan payload)) None
                               ''OPENAI_API_KEY is not configured. Responding with a heuristic fallback plan.'',
                      status = 200 \<rparr>, [])"
  using assms by (simp add: POST_def)

theorem POST_without_credential_witness:
  "json \<lparr>json = Returns exampleBrief\<rparr> = Returns exampleBrief \<and>
   safeParse (exampleEnv SafeParseSuccess None (Throws (Error ''no client''))) exampleBrief
     = SafeParseSuccess exampleBrief \<and>
   \<not> truthy (OPENAI_API_KEY (exampleEnv SafeParseSuccess None (Throws (Error ''no client'')))) \<and>
   POST (exampleEnv SafeParseSuccess None (Throws (Error ''no client'')))
        \<lparr>json = Returns exampleBrief\<rparr> =
     (Returns \<lparr> body = WarningBody (Some (buildFallbackPlan exampleBrief)) None
                         ''OPENAI_API_KEY is not configured. Responding with a heuristic fallback plan.'',
                status = 200 \<rparr>, [])"
proof -
  let ?env = "exampleEnv SafeParseSuccess None (Throws (Error ''no client''))"
  let ?req = "\<lparr>json = Returns exampleBrief\<rparr> :: LeadRequest Request"
  have h1: "json ?req = Returns exampleBrief" by simp
  have h2: "safeParse ?env exampleBrief = SafeParseSuccess exampleBrief"
    by (simp add: exampleEnv_def)
  have h3: "\<not> truthy (OPENAI_API_KEY ?env)"
    by (simp add: exampleEnv_def truthy_def)
  from POST_without_credential [OF h1 h2 h3] h1 h2 h3 show ?thesis by simp
qed

text \<open>
  Claim C3. For a validated brief and a configured credential, when the call of the
  model throws, the handler answers with status 200, the fallback plan of the brief, no
  raw text and a fixed warning. The error appears in the effects only, as the line
  written by \<^verbatim>\<open>console.error\<close>; the response is the same whichever error the call
  throws.
\<close>

theorem POST_model_call_fails:
  assumes "json request = Returns raw_body"
    and "safeParse env raw_body = SafeParseSuccess payload"
    and "truthy (OPENAI_API_KEY env)"
    and "getOpenAIClient env = Returns client"
    and "buildLeadPlanPrompt env payload = Returns prompt"
    and "client (chatRequest prompt) = Throws error"
  shows "POST env request =
           (Returns \<lparr> body = WarningBody (Some (buildFallbackPlan payload)) None
                               ''Failed to generate plan with OpenAI. Provided a fallback strategy instead.'',
                      status = 200 \<rparr>,
            [CompletionsCreate (chatRequest prompt), ConsoleError error])
         \<and> (\<forall>error'. fst (POST (env\<lparr>getOpenAIClient := Returns (\<lambda>r. Throws error')\<rparr>) request)
                        = fst (POST env request))"
  using assms by (simp add: POST_def catchBlock_def)

theorem POST_model_call_fails_witness:
  "POST (exampleEnv SafeParseSuccess (Some ''sk-test'') (Returns (failWith (Error ''ECONNRESET''))))
        \<lparr>json = Returns exampleBrief\<rparr> =
     (Returns \<lparr> body = WarningBody (Some (buildFallbackPlan exampleBrief)) None
                         ''Failed to generate plan with OpenAI. Provided a fallback strategy instead.'',
                status = 200 \<rparr>,
      [CompletionsCreate (chatRequest ''Plan a campaign for Lumos Analytics''),
       ConsoleError (Error ''ECONNRESET'')])"
proof -
  let ?client = "failWith (Error ''ECONNRESET'')"
  let ?env = "exampleEnv SafeParseSuccess (Some ''sk-test'') (Returns ?client)"
  let ?req = "\<lparr>json = Returns exampleBrief\<rparr> :: LeadRequest Request"
  let ?prompt = "''Plan a campaign for Lumos Analytics''"
  have h1: "json ?req = Returns exampleBrief" by simp
  have h2: "safeParse ?env exampleBrief = SafeParseSuccess exampleBrief"
    by (simp add: exampleEnv_def)
  have h3: "truthy (OPENAI_API_KEY ?env)"
    by (simp add: exampleEnv_def truthy_def)
  have h4: "getOpenAIClient ?env = Returns ?client"
    by (simp add: exampleEnv_def)
  have h5: "buildLeadPlanPrompt ?env exampleBrief = Returns ?prompt"
    by (simp add: exampleEnv_def exampleBrief_def)
  have h6: "?client (chatRequest ?prompt) = Throws (Error ''ECONNRESET'')"
    by (simp add: failWith_def)
  from POST_model_call_fails [of ?req exampleBrief ?env exampleBrief ?client ?prompt
                                 "Error ''ECONNRESET''", OF h1 h2 h3 h4 h5 h6]
  show ?thesis by simp
qed

lemma POST_catches_every_throw:
  assumes "json request = Returns raw_body"
    and "safeParse env raw_body = SafeParseSuccess payload"
    and "truthy (OPENAI_API_KEY env)"
    and "getOpenAIClient env = Throws error
         \<or> (\<exists>client. getOpenAIClient env = Returns client
                \<and> buildLeadPlanPrompt env payload = Throws error)
         \<or> (\<exists>client prompt. getOpenAIClient env = Returns client
                \<and> buildLeadPlanPrompt env payload = Returns prompt
                \<and> client (chatRequest prompt) = Throws error)
         \<or> (\<exists>client prompt completion. getOpenAIClient env = Returns client
                \<and> buildLeadPlanPrompt env payload = Returns prompt
                \<and> client (chatRequest prompt) = Returns completion
                \<and> tryParsePlan env (responseTextOf completion) = Throws error)"
  shows "fst (POST env request) =
           Returns \<lparr> body = WarningBody (Some (buildFallbackPlan payload)) None
                              ''Failed to generate plan with OpenAI. Provided a fallback strategy instead.'',
                     status = 200 \<rparr>
         \<and> last (snd (POST env request)) = ConsoleError error"
  using assms by (auto simp add: POST_def catchBlock_def)

text \<open>
  Claim C4. For a validated brief and a configured credential, when the model answers
  and the parser returns no plan for the answer's text, the handler answers with status
  200, no plan, the raw text that the parser returned and the parser's message as the
  notice; no fallback plan is put in its place, and nothing but the call of the model
  is among the effects.
\<close>

theorem POST_unparseable_output:
  assumes "json request = Returns raw_body"
    and "safeParse env raw_body = SafeParseSuccess payload"
    and "truthy (OPENAI_API_KEY env)"
    and "getOpenAIClient env = Returns client"
    and "buildLeadPlanPrompt env payload = Returns prompt"
    and "client (chatRequest prompt) = Returns completion"
    and "tryParsePlan env (responseTextOf completion) = Returns r"
    and "plan r = None"
  shows "POST env request =
           (Returns \<lparr> body = NoticeBody None (raw r) (message r), status = 200 \<rparr>,
            [CompletionsCreate (chatRequest prompt)])"
  using assms by (simp add: POST_def)

theorem POST_unparseable_output_witness:
  "POST (exampleEnv SafeParseSuccess (Some ''sk-test'') (Returns (replyWith ''I cannot help with that.'')))
        \<lparr>json = Returns exampleBrief\<rparr> =
     (Returns \<lparr> body = NoticeBody None (Some ''I cannot help with that.'')
                         (Some ''model output could not be parsed as a structured plan''),
                status = 200 \<rparr>,
      [CompletionsCreate (chatRequest ''Plan a campaign for Lumos Analytics'')])"
proof -
  let ?client = "replyWith ''I cannot help with that.''"
  let ?completion = "ChatCompletion (Some [Choice (Some (CompletionMessage (Some ''I cannot help with that.'')))])"
  let ?env = "exampleEnv SafeParseSuccess (Some ''sk-test'') (Returns ?client)"
  let ?req = "\<lparr>json = Returns exampleBrief\<rparr> :: LeadRequest Request"
  let ?prompt = "''Plan a campaign for Lumos Analytics''"
  let ?r = "\<lparr> plan = None, raw = Some ''I cannot help with that.'',
             message = Some ''model output could not be parsed as a structured plan'' \<rparr>"
  have h1: "json ?req = Returns exampleBrief" by simp
  have h2: "safeParse ?env exampleBrief = SafeParseSuccess exampleBrief"
    by (simp add: exampleEnv_def)
  have h3: "truthy (OPENAI_API_KEY ?env)"
    by (simp add: exampleEnv_def truthy_def)
  have h4: "getOpenAIClient ?env = Returns ?client"
    by (simp add: exampleEnv_def)
  have h5: "buildLeadPlanPrompt ?env exampleBrief = Returns ?prompt"
    by (simp add: exampleEnv_def exampleBrief_def)
  have h6: "?client (chatRequest ?prompt) = Returns ?completion"
    by (simp add: replyWith_def)
  have reply: "responseTextOf ?completion = ''I cannot help with that.''"
    by simp
  have h7: "tryParsePlan ?env (responseTextOf ?completion) = Returns ?r"
    by (simp only: reply) (simp add: exampleEnv_def parsePlan_refusal)
  have h8: "plan ?r = None" by simp
  from POST_unparseable_output [of ?req exampleBrief ?env exampleBrief ?client ?prompt
                                   ?completion ?r, OF h1 h2 h3 h4 h5 h6 h7 h8]
  show ?thesis by simp
qed

text \<open>
  Claim C8. The handler is not total: \<^verbatim>\<open>await request.json()\<close> stands before and
  outside the \<^verbatim>\<open>try\<close> block, so for a body that is not JSON the \<^verbatim>\<open>SyntaxError\<close>
  of that call leaves the handler and no response of the specified shapes is produced.
  The theorem evaluates the handler at such a request.
\<close>

theorem POST_throws_on_malformed_body:
  "fst (POST (exampleEnv SafeParseSuccess None (Throws (Error ''no client'')))
          \<lparr>json = Throws (SyntaxError ''Unexpected token h in JSON at position 0'')\<rparr>)
     = Throws (SyntaxError ''Unexpected token h in JSON at position 0'')"
  by (simp add: POST_def)

text \<open>
  Every other path of the handler ends in a response: for a body that is JSON the
  handler returns a response of one of the specified shapes, provided the parser gives
  a raw text and a message whenever it returns without a plan.
\<close>

lemma POST_responds_on_json_body:
  assumes "json request = Returns raw_body"
    and "\<And>modelText r. tryParsePlan env modelText = Returns r \<Longrightarrow> plan r = None \<Longrightarrow>
           raw r \<noteq> None \<and> message r \<noteq> None"
  shows "\<exists>response. fst (POST env request) = Returns response \<and> specifiedResponse response"
proof (cases "safeParse env raw_body")
  case (SafeParseError issues)
  with assms(1) show ?thesis
    by (simp add: POST_def specifiedResponse_def)
next
  case (SafeParseSuccess payload)
  show ?thesis
  proof (cases "truthy (OPENAI_API_KEY env)")
    case False
    with assms(1) SafeParseSuccess show ?thesis
      by (simp add: POST_def specifiedResponse_def)
  next
    case True
    note start = assms(1) SafeParseSuccess True
    show ?thesis
    proof (cases "getOpenAIClient env")
      case (Throws error)
      with start show ?thesis
        by (simp add: POST_def specifiedResponse_def catchBlock_def)
    next
      case client: (Returns client)
      show ?thesis
      proof (cases "buildLeadPlanPrompt env payload")
        case (Throws error)
        with start client show ?thesis
          by (simp add: POST_def specifiedResponse_def catchBlock_def)
      next
        case prompt: (Returns prompt)
        show ?thesis
        proof (cases "client (chatRequest prompt)")
          case (Throws error)
          with start client prompt show ?thesis
            by (simp add: POST_def specifiedResponse_def catchBlock_def)
        next
          case completion: (Returns completion)
          show ?thesis
          proof (cases "tryParsePlan env (responseTextOf completion)")
            case (Throws error)
            with start client prompt completion show ?thesis
              by (simp add: POST_def specifiedResponse_def catchBlock_def)
          next
            case (Returns r)
            with start client prompt completion assms(2) [of "responseTextOf completion" r]
            show ?thesis
              by (auto simp add: POST_def specifiedResponse_def)
          qed
        qed
      qed
    qed
  qed
qed

section \<open>Properties of validation failures\<close>

lemma map_of_pushMessage:
  "map_of (pushMessage k m al) f =
     (if f = k then Some ((case map_of al k of None \<Rightarrow> [] | Some ms \<Rightarrow> ms) @ [m])
      else map_of al f)"
  by (induction al) auto

lemma keys_pushMessage: "fst ` set (pushMessage k m al) = insert k (fst ` set al)"
  by (induction k m al rule: pushMessage.induct) (simp_all add: insert_commute)

lemma distinct_pushMessage:
  "distinct (map fst al) \<Longrightarrow> distinct (map fst (pushMessage k m al))"
proof (induction al)
  case Nil
  then show ?case by simp
next
  case (Cons a al)
  obtain k' ms where a: "a = (k', ms)" by (cases a)
  from Cons show ?case
    using keys_pushMessage [of k m al] by (auto simp: a)
qed

lemma fieldErrors_flattenInto:
  "map_of (fieldErrors (flattenInto issues acc)) f =
     (case (map_of (fieldErrors acc) f, fieldMessages f issues) of
        (None, []) \<Rightarrow> None
      | (None, ms) \<Rightarrow> Some ms
      | (Some old, ms) \<Rightarrow> Some (old @ ms))"
proof (induction issues arbitrary: acc)
  case Nil
  then show ?case by (simp add: fieldMessages_def split: option.splits)
next
  case (Cons sub issues)
  show ?case
  proof (cases "path sub")
    case Nil
    then show ?thesis
      by (simp add: Cons.IH fieldMessages_def)
  next
    case (Cons k ks)
    then show ?thesis
      by (auto simp add: Cons.IH fieldMessages_def map_of_pushMessage
               split: option.splits list.splits)
  qed
qed

lemma formErrors_flattenInto:
  "formErrors (flattenInto issues acc) =
     formErrors acc @ map ZodIssue.message (filter (\<lambda>sub. path sub = []) issues)"
proof (induction issues arbitrary: acc)
  case Nil
  then show ?case by simp
next
  case (Cons sub issues)
  then show ?case by (cases "path sub") simp_all
qed

lemma distinct_flattenInto:
  "distinct (map fst (fieldErrors acc)) \<Longrightarrow>
   distinct (map fst (fieldErrors (flattenInto issues acc)))"
proof (induction issues arbitrary: acc)
  case Nil
  then show ?case by simp
next
  case (Cons sub issues)
  then show ?case
    by (cases "path sub") (simp_all add: distinct_pushMessage)
qed

lemma fieldErrors_flatten:
  "map_of (fieldErrors (flatten issues)) f =
     (case fieldMessages f issues of [] \<Rightarrow> None | m # ms \<Rightarrow> Some (m # ms))"
  by (simp add: flatten_def fieldErrors_flattenInto split: list.splits)

lemma distinct_flatten: "distinct (map fst (fieldErrors (flatten issues)))"
  by (simp add: flatten_def distinct_flattenInto)

lemma firstMessages_absent:
  "f \<notin> fst ` set entries \<Longrightarrow> firstMessages entries errs f = errs f"
  by (induction entries arbitrary: errs) (auto split: list.splits)

lemma firstMessages_map_of:
  "distinct (map fst entries) \<Longrightarrow>
   firstMessages entries errs f =
     (case map_of entries f of
        None \<Rightarrow> errs f
      | Some [] \<Rightarrow> errs f
      | Some (m # _) \<Rightarrow> Some m)"
proof (induction entries arbitrary: errs)
  case Nil
  then show ?case by simp
next
  case (Cons e entries)
  obtain k ms where e: "e = (k, ms)" by (cases e)
  show ?case
  proof (cases "f = k")
    case True
    with Cons.prems have "f \<notin> fst ` set entries" by (auto simp: e)
    then show ?thesis
      by (simp add: e True firstMessages_absent split: list.splits)
  next
    case False
    with Cons show ?thesis
      by (simp add: e split: list.splits option.splits)
  qed
qed

lemma handleSubmit_errors:
  assumes "parse (form st) = Throws (ZodError formIssues)"
  shows "errors (handleSubmit parse submitPlan st) =
           firstMessages (fieldErrors (flatten formIssues)) Map.empty"
  using assms by (simp add: handleSubmit_def)

text \<open>
  Claim C7. As stated, the claim fails for the route: the issues of its 400 response
  are the flattened error, which gives a field every message raised for it, not only the
  first, as the counterexample after the theorem shows. What holds: when the validator
  rejects the body, the handler returns (it does not throw) status 400 with the error
  \<^verbatim>\<open>Invalid input\<close> and the flattened issues; these list the messages of the issues
  without a path as form errors and map each offending field, once, to all of its
  messages in order of occurrence. The form's submit handler catches the validation
  error of the form and keeps, for each offending field, the first of its messages.
\<close>

theorem validation_failure_is_structured:
  assumes "json request = Returns raw_body"
    and "safeParse env raw_body = SafeParseError issues"
    and "parse (form st) = Throws (ZodError formIssues)"
  shows "POST env request =
           (Returns \<lparr> body = InvalidInputBody ''Invalid input'' (flatten issues),
                      status = 400 \<rparr>, [])
         \<and> formErrors (flatten issues) =
             map ZodIssue.message (filter (\<lambda>sub. path sub = []) issues)
         \<and> distinct (map fst (fieldErrors (flatten issues)))
         \<and> map_of (fieldErrors (flatten issues)) field =
             (case fieldMessages field issues of [] \<Rightarrow> None | m # ms \<Rightarrow> Some (m # ms))
         \<and> errors (handleSubmit parse submitPlan st) field =
             (case fieldMessages field formIssues of [] \<Rightarrow> None | m # ms \<Rightarrow> Some m)"
proof -
  have "POST env request =
          (Returns \<lparr> body = InvalidInputBody ''Invalid input'' (flatten issues),
                     status = 400 \<rparr>, [])"
    using assms(1,2) by (simp add: POST_def)
  moreover have "formErrors (flatten issues) =
                   map ZodIssue.message (filter (\<lambda>sub. path sub = []) issues)"
    by (simp add: flatten_def formErrors_flattenInto)
  moreover have "errors (handleSubmit parse submitPlan st) field =
                   (case fieldMessages field formIssues of [] \<Rightarrow> None | m # ms \<Rightarrow> Some m)"
    by (simp add: handleSubmit_errors [of parse st formIssues submitPlan, OF assms(3)]
                  firstMessages_map_of [OF distinct_flatten]
                  fieldErrors_flatten split: list.splits)
  ultimately show ?thesis
    by (simp add: distinct_flatten fieldErrors_flatten)
qed

lemma fieldMessages_twoBadGoals:
  "fieldMessages ''goals'' twoBadGoals =
     [''Invalid enum value (first goal)'', ''Invalid enum value (second goal)'']"
  by (simp add: fieldMessages_def twoBadGoals_def)

theorem validation_failure_is_structured_witness:
  "POST (exampleEnv (rejectWith twoBadGoals) None (Throws (Error ''no client'')))
        \<lparr>json = Returns (exampleBrief\<lparr>goals := [''x'', ''y'']\<rparr>)\<rparr> =
     (Returns \<lparr> body = InvalidInputBody ''Invalid input'' (flatten twoBadGoals), status = 400 \<rparr>, [])
   \<and> map_of (fieldErrors (flatten twoBadGoals)) ''goals'' =
       Some [''Invalid enum value (first goal)'', ''Invalid enum value (second goal)'']
   \<and> errors (handleSubmit (throwWith twoBadGoals) noSubmit examplePage) ''goals'' =
       Some ''Invalid enum value (first goal)''"
proof -
  let ?env = "exampleEnv (rejectWith twoBadGoals) None (Throws (Error ''no client''))"
  let ?body = "exampleBrief\<lparr>goals := [''x'', ''y'']\<rparr>"
  let ?req = "\<lparr>json = Returns ?body\<rparr> :: LeadRequest Request"
  let ?parse = "throwWith twoBadGoals"
  have h1: "json ?req = Returns ?body" by simp
  have h2: "safeParse ?env ?body = SafeParseError twoBadGoals"
    by (simp add: exampleEnv_def rejectWith_def)
  have h3: "?parse (form examplePage) = Throws (ZodError twoBadGoals)"
    by (simp add: throwWith_def)
  from validation_failure_is_structured
         [of ?req ?body ?env twoBadGoals ?parse examplePage twoBadGoals "''goals''"
             noSubmit, OF h1 h2 h3]
  show ?thesis
    by (simp only: fieldMessages_twoBadGoals) simp
qed

text \<open>
  Counterexample to claim C7 as stated: for a body with two goals outside the
  enumeration, the issues of the response give the field \<^verbatim>\<open>goals\<close> both messages.
\<close>

theorem POST_reports_every_message:
  "POST (exampleEnv (rejectWith twoBadGoals) None (Throws (Error ''no client'')))
        \<lparr>json = Returns (exampleBrief\<lparr>goals := [''x'', ''y'']\<rparr>)\<rparr> =
     (Returns
        \<lparr> body = InvalidInputBody ''Invalid input''
                   \<lparr> formErrors = [],
                     fieldErrors =
                       [(''goals'', [''Invalid enum value (first goal)'',
                                     ''Invalid enum value (second goal)''])] \<rparr>,
          status = 400 \<rparr>, [])"
  by (simp add: POST_def exampleEnv_def rejectWith_def flatten_def twoBadGoals_def)

end
